theory Spec2Isabelle
  imports Main "HOL-Library.Sublist"
begin

section \<open>YouTube Focus Mode content script (content/content.js)\<close>

text \<open>
  A shallow embedding of the content script. A string is its sequence of UTF-16 code
  units; the page is a flat list of elements, each carrying the selector tests and the
  mutable markers the script reads and writes; the module-level variables (\<open>settings\<close>,
  \<open>lastTrackTime\<close>), the page, \<open>chrome.storage.sync\<close>, the store updates that wait for
  their answer and the clock form one state record that every function takes and returns.
  A JavaScript exception is a value: a function that can throw returns a \<open>completion\<close>,
  which keeps the state reached when the exception left the function.
\<close>

subsection \<open>Strings\<close>

text \<open>
  A JavaScript string is a sequence of UTF-16 code units, here numbers; \<open>str\<close> writes the
  string of an ASCII literal.
\<close>

type_synonym jsString = "nat list"

definition str :: "string \<Rightarrow> jsString" where
  "str s = map of_char s"

text \<open>
  \<open>String.prototype.toLowerCase\<close> is the platform's Unicode case mapping and no part of the
  script: every function that calls it takes it as its first argument, \<open>lower\<close>, and
  nothing is assumed about it. On ASCII text it is \<open>asciiLowerCase\<close>, which stands in for
  it on the sample pages.
\<close>

definition asciiLowerUnit :: "nat \<Rightarrow> nat" where
  "asciiLowerUnit n = (if 65 \<le> n \<and> n \<le> 90 then n + 32 else n)"

definition asciiLowerCase :: "jsString \<Rightarrow> jsString" where
  "asciiLowerCase s = map asciiLowerUnit s"

text \<open>
  \<open>s.includes(k)\<close>: \<open>k\<close> occurs in \<open>s\<close> as a contiguous run of code units, tried at every
  position.
\<close>

fun includesStr :: "jsString \<Rightarrow> jsString \<Rightarrow> bool" where
  "includesStr [] k = (k = [])"
| "includesStr (c # cs) k = (prefix k (c # cs) \<or> includesStr cs k)"

subsection \<open>Settings\<close>

text \<open>
  The settings object is whatever \<open>chrome.storage.sync\<close> or a message delivered, so a
  field that the script reads without a guard may be missing: \<open>None\<close> is \<open>undefined\<close>.
  A missing \<open>focusModeEnabled\<close> is read as falsy, hence a plain \<open>bool\<close>.
\<close>

record statsObject =
  educationalMinutes :: "int option"
  blockedCount :: "int option"
  focusStreak :: "int option"
  lastActiveDate :: "jsString option"

record focusSettings =
  focusModeEnabled :: bool
  allowedKeywords :: "jsString list option"
  blockedKeywords :: "jsString list option"
  stats :: "statsObject option"

definition getDefaultSettings :: focusSettings where
  "getDefaultSettings =
     \<lparr> focusModeEnabled = True,
       allowedKeywords = Some (map str
         [''tutorial'', ''course'', ''lecture'', ''coding'', ''programming'',
          ''java'', ''python'', ''javascript'', ''react'', ''dsa'', ''algorithms'',
          ''system design'', ''ai'', ''machine learning'', ''web development'',
          ''interview'', ''leetcode'']),
       blockedKeywords = Some (map str
         [''prank'', ''vlog'', ''roast'', ''shorts'', ''gaming'', ''reaction'',
          ''comedy'', ''movie'', ''music video'', ''tiktok'', ''funny'', ''meme'']),
       stats = None \<rparr>"

subsection \<open>Classification\<close>

datatype classification = Blocked | Educational | Neutral

datatype error = TypeError | StorageError

text \<open>
  The body shared by the two \<open>for (const keyword of ...)\<close> loops of \<open>classifyContent\<close>
  and by the \<open>some\<close> call of \<open>trackEducationalTime\<close>: the first keyword whose lower-case
  form occurs in the text decides.
\<close>

fun anyKeywordIn :: "(jsString \<Rightarrow> jsString) \<Rightarrow> jsString \<Rightarrow> jsString list \<Rightarrow> bool" where
  "anyKeywordIn lower lowerText [] = False"
| "anyKeywordIn lower lowerText (keyword # rest) =
     (if includesStr lowerText (lower keyword) then True
      else anyKeywordIn lower lowerText rest)"

text \<open>
  Iterating a missing keyword list throws a TypeError. The allowed list is only touched
  when no blocked keyword matched.
\<close>

definition classifyContent ::
  "(jsString \<Rightarrow> jsString) \<Rightarrow> focusSettings \<Rightarrow> jsString \<Rightarrow> error + classification" where
  "classifyContent lower s text =
     (let lowerText = lower text in
      case blockedKeywords s of
        None \<Rightarrow> Inl TypeError
      | Some blocked \<Rightarrow>
          if anyKeywordIn lower lowerText blocked then Inr Blocked
          else (case allowedKeywords s of
                  None \<Rightarrow> Inl TypeError
                | Some allowed \<Rightarrow>
                    if anyKeywordIn lower lowerText allowed then Inr Educational
                    else Inr Neutral))"

subsection \<open>The page\<close>

text \<open>
  An element of the page, as far as the script can tell elements apart: which of the
  script's selectors it matches (fixed by its tag and attributes, which the script never
  changes), the class and data attribute the script sets on it, and what the script finds
  below it: the text of the first \<open>#video-title, #video-title-link\<close> and of the first
  \<open>#channel-name, ytd-channel-name\<close> descendant, the \<open>style.position\<close> of the first
  \<open>ytd-thumbnail, #thumbnail\<close> descendant, and the number of \<open>.focus-edu-badge\<close>
  descendants. Content cards are taken not to contain one another.
\<close>

record element =
  matchesVideoRenderer :: bool
  matchesShorts :: bool
  matchesShortsTab :: bool
  matchesShortsSection :: bool
  matchesHomeBrowse :: bool
  matchesHomeFeed :: bool
  focusHidden :: bool
  focusProcessed :: "jsString option"
  videoTitle :: "jsString option"
  channelName :: "jsString option"
  thumbnail :: "jsString option"
  eduBadges :: nat

text \<open>
  The document: its elements in document order, the dashboard node
  (\<open>#focus-mode-dashboard\<close>; \<open>Some h\<close> when it exists, \<open>h\<close> telling whether it carries the
  class \<open>hidden\<close>), \<open>window.location.pathname\<close>, and the text of the watch page's heading.
\<close>

record document =
  elements :: "element list"
  dashboard :: "bool option"
  pathname :: jsString
  watchHeading :: "jsString option"

text \<open>\<open>querySelectorAll(sel).forEach(f)\<close> and \<open>querySelector(sel)\<close> followed by \<open>f\<close>.\<close>

definition forEachMatching :: "('a \<Rightarrow> bool) \<Rightarrow> ('a \<Rightarrow> 'a) \<Rightarrow> 'a list \<Rightarrow> 'a list" where
  "forEachMatching sel f es = map (\<lambda>e. if sel e then f e else e) es"

fun firstMatching :: "('a \<Rightarrow> bool) \<Rightarrow> ('a \<Rightarrow> 'a) \<Rightarrow> 'a list \<Rightarrow> 'a list" where
  "firstMatching sel f [] = []"
| "firstMatching sel f (e # es) =
     (if sel e then f e # es else e # firstMatching sel f es)"

subsection \<open>The settings store and the script's state\<close>

text \<open>
  \<open>chrome.storage.sync\<close>: the value under the key \<open>focusSettings\<close>, and whether a read or
  a write is going to fail.
\<close>

record storage =
  storedSettings :: "focusSettings option"
  getFails :: bool
  setFails :: bool

definition storageGet :: "storage \<Rightarrow> error + focusSettings option" where
  "storageGet sto = (if getFails sto then Inl StorageError else Inr (storedSettings sto))"

definition storageSet :: "storage \<Rightarrow> focusSettings \<Rightarrow> error + storage" where
  "storageSet sto v =
     (if setFails sto then Inl StorageError else Inr (sto\<lparr>storedSettings := Some v\<rparr>))"

text \<open>
  \<open>updateBlockedCount\<close> and \<open>updateEducationalTime\<close> are \<open>async\<close> and no caller awaits them.
  A call runs to its first \<open>await\<close>: it issues the read, whose answer the store fixes at that
  moment, and returns. The rest of the function is a task that waits for the answer, with
  the amount to add; the tasks run later, after the handler that issued them, in the order
  of their reads.
\<close>

datatype task =
  BlockedCountUpdate int "error + focusSettings option"
| EducationalTimeUpdate int "error + focusSettings option"

text \<open>
  The module-level variables \<open>settings\<close> (assigned by \<open>loadSettings\<close> before any handler is
  registered) and \<open>lastTrackTime\<close>, the page, the store, the waiting tasks, and the value
  \<open>Date.now()\<close> returns.
\<close>

record state =
  settings :: focusSettings
  doc :: document
  sync :: storage
  pending :: "task list"
  lastTrackTime :: int
  now :: int

datatype 'a completion = Returned 'a | Threw error 'a

fun stateOf :: "'a completion \<Rightarrow> 'a" where
  "stateOf (Returned st) = st"
| "stateOf (Threw err st) = st"

definition setElements :: "element list \<Rightarrow> state \<Rightarrow> state" where
  "setElements es st = st\<lparr>doc := (doc st)\<lparr>elements := es\<rparr>\<rparr>"

subsection \<open>Loading settings\<close>

text \<open>
  The body of the \<open>try\<close> block of \<open>loadSettings\<close>, and the function with its \<open>catch\<close>.
  \<open>initialize\<close> awaits it before it registers any handler, so it runs as one step.
\<close>

definition loadSettingsTry :: "state \<Rightarrow> state completion" where
  "loadSettingsTry st =
     (case storageGet (sync st) of
        Inl err \<Rightarrow> Threw err st
      | Inr result \<Rightarrow>
          Returned (st\<lparr>settings := (case result of Some v \<Rightarrow> v | None \<Rightarrow> getDefaultSettings)\<rparr>))"

definition loadSettings :: "state \<Rightarrow> state completion" where
  "loadSettings st =
     (case loadSettingsTry st of
        Returned st1 \<Rightarrow> Returned st1
      | Threw err st1 \<Rightarrow> Returned (st1\<lparr>settings := getDefaultSettings\<rparr>))"

subsection \<open>The dashboard\<close>

text \<open>
  \<open>addFocusHidden\<close> is \<open>el.classList.add('focus-hidden')\<close>. Showing the dashboard creates
  the node when it is missing and removes its class \<open>hidden\<close>; the click listeners it
  registers on creation are left out.
\<close>

definition addFocusHidden :: "element \<Rightarrow> element" where
  "addFocusHidden el = el\<lparr>focusHidden := True\<rparr>"

definition showFocusDashboard :: "state \<Rightarrow> state" where
  "showFocusDashboard st =
     (let d = (doc st)\<lparr>dashboard := Some False\<rparr>
      in st\<lparr>doc := d\<lparr>elements :=
           firstMatching matchesHomeFeed addFocusHidden (elements d)\<rparr>\<rparr>)"

definition hideFocusDashboard :: "state \<Rightarrow> state" where
  "hideFocusDashboard st =
     (let d = (case dashboard (doc st) of
                 None \<Rightarrow> doc st
               | Some h \<Rightarrow> (doc st)\<lparr>dashboard := Some True\<rparr>)
      in if \<not> focusModeEnabled (settings st)
         then st\<lparr>doc := d\<lparr>elements :=
                firstMatching matchesHomeFeed (\<lambda>e. e\<lparr>focusHidden := False\<rparr>) (elements d)\<rparr>\<rparr>
         else st\<lparr>doc := d\<rparr>)"

definition isHome :: "document \<Rightarrow> bool" where
  "isHome d =
     (pathname d = str ''/'' \<or> pathname d = str ''/feed/subscriptions'' \<or>
      list_ex matchesHomeBrowse (elements d))"

definition checkForHomepage :: "state \<Rightarrow> state" where
  "checkForHomepage st =
     (if isHome (doc st) \<and> focusModeEnabled (settings st) then showFocusDashboard st
      else hideFocusDashboard st)"

text \<open>The overlay is on screen when the dashboard node exists without the class \<open>hidden\<close>.\<close>

definition overlayShown :: "state \<Rightarrow> bool" where
  "overlayShown st = (dashboard (doc st) = Some False)"

subsection \<open>Reporting statistics\<close>

text \<open>
  \<open>updateBlockedCount\<close> and \<open>updateEducationalTime\<close> have the same body but for the
  counter they add to. The call issues the read and leaves a task.
\<close>

definition updateBlockedCount :: "int \<Rightarrow> state \<Rightarrow> state" where
  "updateBlockedCount count st =
     st\<lparr>pending := pending st @ [BlockedCountUpdate count (storageGet (sync st))]\<rparr>"

definition updateEducationalTime :: "int \<Rightarrow> state \<Rightarrow> state" where
  "updateEducationalTime minutes st =
     st\<lparr>pending := pending st @ [EducationalTimeUpdate minutes (storageGet (sync st))]\<rparr>"

text \<open>
  The two pairs of assignments: \<open>statsOrEmpty\<close> is \<open>currentSettings.stats || {}\<close>, \<open>orZero\<close>
  is \<open>counter || 0\<close>.
\<close>

definition emptyStats :: statsObject where
  "emptyStats =
     \<lparr> educationalMinutes = None, blockedCount = None, focusStreak = None,
       lastActiveDate = None \<rparr>"

definition orZero :: "int option \<Rightarrow> int" where
  "orZero v = (case v of None \<Rightarrow> 0 | Some n \<Rightarrow> n)"

definition statsOrEmpty :: "focusSettings \<Rightarrow> statsObject" where
  "statsOrEmpty s = (case stats s of None \<Rightarrow> emptyStats | Some x \<Rightarrow> x)"

definition addBlocked :: "int \<Rightarrow> focusSettings \<Rightarrow> focusSettings" where
  "addBlocked count currentSettings =
     (let x = statsOrEmpty currentSettings
      in currentSettings\<lparr>stats := Some (x\<lparr>blockedCount := Some (orZero (blockedCount x) + count)\<rparr>)\<rparr>)"

definition addMinutes :: "int \<Rightarrow> focusSettings \<Rightarrow> focusSettings" where
  "addMinutes minutes currentSettings =
     (let x = statsOrEmpty currentSettings
      in currentSettings\<lparr>stats :=
           Some (x\<lparr>educationalMinutes := Some (orZero (educationalMinutes x) + minutes)\<rparr>)\<rparr>)"

text \<open>
  What both functions do once the read is answered, \<open>f\<close> being the assignments. A failed
  read is caught and logged. In \<open>result.focusSettings || settings\<close>, with nothing stored,
  \<open>currentSettings\<close> is the in-memory object itself, so the assignments change \<open>settings\<close>
  too, before and whether or not the write succeeds; a failed write is caught and logged.
\<close>

definition resumeUpdate ::
  "(focusSettings \<Rightarrow> focusSettings) \<Rightarrow> error + focusSettings option \<Rightarrow> state \<Rightarrow> state" where
  "resumeUpdate f answer st =
     (case answer of
        Inl err \<Rightarrow> st
      | Inr result \<Rightarrow>
          (let currentSettings = (case result of Some v \<Rightarrow> v | None \<Rightarrow> settings st);
               updated = f currentSettings;
               st1 = (case result of Some v \<Rightarrow> st | None \<Rightarrow> st\<lparr>settings := updated\<rparr>)
           in case storageSet (sync st1) updated of
                Inl err \<Rightarrow> st1
              | Inr sto \<Rightarrow> st1\<lparr>sync := sto\<rparr>))"

fun runTask :: "task \<Rightarrow> state \<Rightarrow> state" where
  "runTask (BlockedCountUpdate count answer) st = resumeUpdate (addBlocked count) answer st"
| "runTask (EducationalTimeUpdate minutes answer) st = resumeUpdate (addMinutes minutes) answer st"

text \<open>
  The answer to the oldest read arrives and its task runs; \<open>settle\<close> lets every waiting
  task run, oldest first.
\<close>

definition storageReply :: "state \<Rightarrow> state" where
  "storageReply st =
     (case pending st of [] \<Rightarrow> st | t # ts \<Rightarrow> runTask t (st\<lparr>pending := ts\<rparr>))"

fun runTasks :: "task list \<Rightarrow> state \<Rightarrow> state" where
  "runTasks [] st = st"
| "runTasks (t # ts) st = runTasks ts (runTask t st)"

definition settle :: "state \<Rightarrow> state" where
  "settle st = runTasks (pending st) (st\<lparr>pending := []\<rparr>)"

subsection \<open>The scan pass\<close>

definition hideShorts :: "state \<Rightarrow> state" where
  "hideShorts st =
     (let es1 = forEachMatching matchesShorts addFocusHidden (elements (doc st));
          es2 = firstMatching matchesShortsTab addFocusHidden es1;
          es3 = forEachMatching matchesShortsSection addFocusHidden es2
      in setElements es3 st)"

definition hideVideo :: "element \<Rightarrow> element" where
  "hideVideo video = video\<lparr>focusHidden := True\<rparr>"

definition markAsEducational :: "element \<Rightarrow> element" where
  "markAsEducational video =
     (if 0 < eduBadges video then video
      else (case thumbnail video of
              None \<Rightarrow> video
            | Some pos \<Rightarrow>
                video\<lparr>thumbnail := Some (str ''relative''),
                  eduBadges := eduBadges video + 1\<rparr>))"

text \<open>
  The callback \<open>filterVideos\<close> passes to \<open>forEach\<close>: the element as the callback leaves it,
  and either the exception that left it or what it added to \<open>blockedCount\<close>.
\<close>

definition filterVideo ::
  "(jsString \<Rightarrow> jsString) \<Rightarrow> focusSettings \<Rightarrow> element \<Rightarrow> element \<times> (error + int)" where
  "filterVideo lower s video =
     (if focusProcessed video = Some (str ''true'') then (video, Inr 0)
      else
        (let video1 = video\<lparr>focusProcessed := Some (str ''true'')\<rparr> in
         case videoTitle video1 of
           None \<Rightarrow> (video1, Inr 0)
         | Some titleText \<Rightarrow>
             (let title = lower titleText;
                  channel = (case channelName video1 of
                               Some channelText \<Rightarrow> lower channelText
                             | None \<Rightarrow> []);
                  combinedText = title @ str '' '' @ channel
              in case classifyContent lower s combinedText of
                   Inl err \<Rightarrow> (video1, Inl err)
                 | Inr Blocked \<Rightarrow> (hideVideo video1, Inr 1)
                 | Inr Educational \<Rightarrow> (markAsEducational video1, Inr 0)
                 | Inr Neutral \<Rightarrow> (video1, Inr 0))))"

text \<open>
  \<open>videos.forEach\<close> over the elements matching \<open>SELECTORS.videoRenderer\<close>, with the
  running \<open>blockedCount\<close>; an exception ends the loop and leaves the later elements as
  they were.
\<close>

fun forEachVideo ::
  "(jsString \<Rightarrow> jsString) \<Rightarrow> focusSettings \<Rightarrow> element list \<Rightarrow> int \<Rightarrow>
     element list \<times> (error + int)" where
  "forEachVideo lower s [] n = ([], Inr n)"
| "forEachVideo lower s (el # es) n =
     (if matchesVideoRenderer el then
        (case filterVideo lower s el of
           (el1, Inl err) \<Rightarrow> (el1 # es, Inl err)
         | (el1, Inr k) \<Rightarrow>
             (case forEachVideo lower s es (n + k) of (es1, r) \<Rightarrow> (el1 # es1, r)))
      else (case forEachVideo lower s es n of (es1, r) \<Rightarrow> (el # es1, r)))"

definition filterVideos :: "(jsString \<Rightarrow> jsString) \<Rightarrow> state \<Rightarrow> state completion" where
  "filterVideos lower st =
     (case forEachVideo lower (settings st) (elements (doc st)) 0 of
        (es, Inl err) \<Rightarrow> Threw err (setElements es st)
      | (es, Inr n) \<Rightarrow>
          Returned (if 0 < n then updateBlockedCount n (setElements es st)
                    else setElements es st))"

definition trackEducationalTime :: "(jsString \<Rightarrow> jsString) \<Rightarrow> state \<Rightarrow> state completion" where
  "trackEducationalTime lower st =
     (if \<not> includesStr (pathname (doc st)) (str ''/watch'') then Returned st
      else (case watchHeading (doc st) of
              None \<Rightarrow> Returned st
            | Some headingText \<Rightarrow>
                (let title = lower headingText in
                 case allowedKeywords (settings st) of
                   None \<Rightarrow> Threw TypeError st
                 | Some allowed \<Rightarrow>
                     if anyKeywordIn lower title allowed then
                       (let elapsed = (now st - lastTrackTime st) div 60000 in
                        if 1 \<le> elapsed
                        then Returned ((updateEducationalTime elapsed st)\<lparr>lastTrackTime := now st\<rparr>)
                        else Returned st)
                     else Returned st)))"

definition removeAllFilters :: "state \<Rightarrow> state" where
  "removeAllFilters st =
     (let es1 = forEachMatching focusHidden (\<lambda>el. el\<lparr>focusHidden := False\<rparr>) (elements (doc st));
          es2 = map (\<lambda>el. el\<lparr>eduBadges := 0\<rparr>) es1;
          es3 = forEachMatching (\<lambda>el. focusProcessed el \<noteq> None)
                  (\<lambda>el. el\<lparr>focusProcessed := None\<rparr>) es2
      in hideFocusDashboard (setElements es3 st))"

definition scanAndFilter :: "(jsString \<Rightarrow> jsString) \<Rightarrow> state \<Rightarrow> state completion" where
  "scanAndFilter lower st =
     (if \<not> focusModeEnabled (settings st) then Returned (removeAllFilters st)
      else (case filterVideos lower (hideShorts st) of
              Threw err st1 \<Rightarrow> Threw err st1
            | Returned st1 \<Rightarrow> trackEducationalTime lower st1))"

subsection \<open>Event handlers\<close>

text \<open>
  \<open>onNavigate\<close> strips the markers and, when focus mode is on, schedules a callback; the
  result says whether it did. \<open>scanAndCheck\<close> is that callback (\<open>initialize\<close> schedules the
  same one), \<open>intervalTick\<close> the callback of \<open>setInterval\<close>; the mutation observer's
  debounced callback is \<open>scanAndFilter\<close> itself.
\<close>

definition onNavigate :: "state \<Rightarrow> state \<times> bool" where
  "onNavigate st =
     (let es = forEachMatching (\<lambda>el. focusProcessed el \<noteq> None)
                 (\<lambda>el. el\<lparr>focusProcessed := None\<rparr>) (elements (doc st))
      in (setElements es st, focusModeEnabled (settings st)))"

definition scanAndCheck :: "(jsString \<Rightarrow> jsString) \<Rightarrow> state \<Rightarrow> state completion" where
  "scanAndCheck lower st =
     (case scanAndFilter lower st of
        Threw err st1 \<Rightarrow> Threw err st1
      | Returned st1 \<Rightarrow> Returned (checkForHomepage st1))"

definition intervalTick :: "(jsString \<Rightarrow> jsString) \<Rightarrow> state \<Rightarrow> state completion" where
  "intervalTick lower st =
     (if focusModeEnabled (settings st) then scanAndFilter lower st else Returned st)"

datatype message = SETTINGS_UPDATED focusSettings | OtherMessage

definition handleMessage ::
  "(jsString \<Rightarrow> jsString) \<Rightarrow> message \<Rightarrow> state \<Rightarrow> state completion" where
  "handleMessage lower msg st =
     (case msg of
        SETTINGS_UPDATED s \<Rightarrow>
          (let st1 = st\<lparr>settings := s\<rparr> in
           if focusModeEnabled s then scanAndCheck lower st1
           else Returned (removeAllFilters st1))
      | OtherMessage \<Rightarrow> Returned st)"

text \<open>
  Everything that makes the script run after \<open>initialize\<close>: the four callbacks, a message,
  and the answer of the store to the oldest waiting read.
\<close>

datatype event =
  NavigateFinish | TimeoutScanAndCheck | IntervalTick | ObserverScan | RuntimeMessage message
| StorageReply

fun handleEvent :: "(jsString \<Rightarrow> jsString) \<Rightarrow> event \<Rightarrow> state \<Rightarrow> state completion" where
  "handleEvent lower NavigateFinish st = Returned (fst (onNavigate st))"
| "handleEvent lower TimeoutScanAndCheck st = scanAndCheck lower st"
| "handleEvent lower IntervalTick st = intervalTick lower st"
| "handleEvent lower ObserverScan st = scanAndFilter lower st"
| "handleEvent lower (RuntimeMessage msg) st = handleMessage lower msg st"
| "handleEvent lower StorageReply st = Returned (storageReply st)"

subsection \<open>Default merging as the spec words it\<close>

text \<open>
  The spec's sentence "missing keyword lists default to the baseline lists", as a function
  on settings; it is not part of the script and is only compared with it.
\<close>

definition mergeDefaults :: "focusSettings \<Rightarrow> focusSettings" where
  "mergeDefaults v =
     v\<lparr>allowedKeywords :=
         (case allowedKeywords v of None \<Rightarrow> allowedKeywords getDefaultSettings | Some a \<Rightarrow> Some a),
       blockedKeywords :=
         (case blockedKeywords v of None \<Rightarrow> blockedKeywords getDefaultSettings | Some b \<Rightarrow> Some b)\<rparr>"

subsection \<open>Auxiliary notions for the properties\<close>

text \<open>
  What one pass of \<open>forEachVideo\<close> can have done to an element: nothing, or, for a
  content card, what the callback does.
\<close>

definition touched ::
  "(jsString \<Rightarrow> jsString) \<Rightarrow> focusSettings \<Rightarrow> element \<Rightarrow> element \<Rightarrow> bool" where
  "touched lower s el el' =
     (el' = el \<or> (matchesVideoRenderer el \<and> el' = fst (filterVideo lower s el)))"

text \<open>
  What the script may do to an element while focus mode is on: the selector tests stay as
  they are, a hidden element stays hidden, and a marked element stays marked.
\<close>

definition grows :: "element \<Rightarrow> element \<Rightarrow> bool" where
  "grows el el' =
     (matchesVideoRenderer el' = matchesVideoRenderer el \<and>
      matchesShorts el' = matchesShorts el \<and>
      matchesShortsTab el' = matchesShortsTab el \<and>
      matchesShortsSection el' = matchesShortsSection el \<and>
      matchesHomeBrowse el' = matchesHomeBrowse el \<and>
      matchesHomeFeed el' = matchesHomeFeed el \<and>
      (focusHidden el \<longrightarrow> focusHidden el') \<and>
      (focusProcessed el \<noteq> None \<longrightarrow> focusProcessed el' \<noteq> None))"

text \<open>What \<open>removeAllFilters\<close> makes of an element.\<close>

definition resetElement :: "element \<Rightarrow> element" where
  "resetElement el = el\<lparr>focusHidden := False, eduBadges := 0, focusProcessed := None\<rparr>"

text \<open>
  What a scan pass with focus mode on makes of one element, the Shorts tab aside: the two
  \<open>forEach\<close> loops of \<open>hideShorts\<close>, then the callback of \<open>filterVideos\<close> when the element
  is a content card.
\<close>

definition scanElement ::
  "(jsString \<Rightarrow> jsString) \<Rightarrow> focusSettings \<Rightarrow> element \<Rightarrow> element" where
  "scanElement lower s el =
     (let el1 = (if matchesShorts el then addFocusHidden el else el);
          el2 = (if matchesShortsSection el1 then addFocusHidden el1 else el1)
      in if matchesVideoRenderer el2 then fst (filterVideo lower s el2) else el2)"

text \<open>An element as the page delivers it: not hidden, without badge, without marker.\<close>

definition unmarked :: "element \<Rightarrow> bool" where
  "unmarked el = (\<not> focusHidden el \<and> eduBadges el = 0 \<and> focusProcessed el = None)"

text \<open>
  The document after \<open>scanAndFilter\<close> and \<open>checkForHomepage\<close> with focus mode on and both
  keyword lists present, and after \<open>removeAllFilters\<close>.
\<close>

definition hiddenDashboard :: "bool option \<Rightarrow> bool option" where
  "hiddenDashboard d = (case d of None \<Rightarrow> None | Some h \<Rightarrow> Some True)"

definition scannedDoc ::
  "(jsString \<Rightarrow> jsString) \<Rightarrow> focusSettings \<Rightarrow> document \<Rightarrow> document" where
  "scannedDoc lower s d =
     (let es = firstMatching matchesShortsTab addFocusHidden
                 (map (scanElement lower s) (elements d))
      in if isHome d
         then d\<lparr>dashboard := Some False,
                elements := firstMatching matchesHomeFeed addFocusHidden es\<rparr>
         else d\<lparr>dashboard := hiddenDashboard (dashboard d), elements := es\<rparr>)"

definition resetDoc :: "document \<Rightarrow> document" where
  "resetDoc d =
     d\<lparr>dashboard := hiddenDashboard (dashboard d), elements := map resetElement (elements d)\<rparr>"

subsection \<open>A sample page\<close>

definition plainElement :: element where
  "plainElement =
     \<lparr> matchesVideoRenderer = False, matchesShorts = False, matchesShortsTab = False,
       matchesShortsSection = False, matchesHomeBrowse = False, matchesHomeFeed = False,
       focusHidden = False, focusProcessed = None, videoTitle = None, channelName = None,
       thumbnail = None, eduBadges = 0 \<rparr>"

definition videoCard :: "string \<Rightarrow> string \<Rightarrow> element" where
  "videoCard t c =
     plainElement\<lparr>matchesVideoRenderer := True, videoTitle := Some (str t),
       channelName := Some (str c), thumbnail := Some []\<rparr>"

definition sampleStats :: statsObject where
  "sampleStats =
     \<lparr> educationalMinutes = Some 5, blockedCount = Some 7, focusStreak = Some 2,
       lastActiveDate = Some (str ''2024-05-01'') \<rparr>"

definition sampleSettings :: focusSettings where
  "sampleSettings =
     \<lparr> focusModeEnabled = True, allowedKeywords = Some [str ''python'', str ''react''],
       blockedKeywords = Some [str ''prank''], stats = Some sampleStats \<rparr>"

text \<open>
  A watch page: three titled cards, a card whose title is not rendered yet, a Shorts
  shelf, and the home browse element with its feed, which the host keeps in the document.
\<close>

definition samplePage :: document where
  "samplePage =
     \<lparr> elements =
         [videoCard ''Python Prank Compilation'' ''Fun Hub'',
          videoCard ''Intro to Python Tutorial'' ''Uni'',
          videoCard ''Cooking Pasta'' ''Chef'',
          plainElement\<lparr>matchesVideoRenderer := True\<rparr>,
          plainElement\<lparr>matchesShorts := True\<rparr>,
          plainElement\<lparr>matchesHomeBrowse := True\<rparr>,
          plainElement\<lparr>matchesHomeFeed := True\<rparr>],
       dashboard = None, pathname = str ''/watch'',
       watchHeading = Some (str ''Learn React in 30 Minutes'') \<rparr>"

text \<open>The page 90 seconds after the baseline of the time tracker, nothing waiting.\<close>

definition sampleState :: state where
  "sampleState =
     \<lparr> settings = sampleSettings, doc = samplePage,
       sync = \<lparr> storedSettings = Some sampleSettings, getFails = False, setFails = False \<rparr>,
       pending = [], lastTrackTime = 1000, now = 91000 \<rparr>"

text \<open>The sample page with every content card marked as processed.\<close>

definition markedState :: state where
  "markedState =
     setElements
       (map (\<lambda>el. if matchesVideoRenderer el then el\<lparr>focusProcessed := Some (str ''true'')\<rparr> else el)
          (elements (doc sampleState)))
       sampleState"

text \<open>The sample page on the home surface with focus mode off and the overlay on screen.\<close>

definition disabledState :: state where
  "disabledState =
     sampleState\<lparr>settings := sampleSettings\<lparr>focusModeEnabled := False\<rparr>,
       doc := samplePage\<lparr>pathname := str ''/'', dashboard := Some False\<rparr>\<rparr>"


text \<open>
  The spec's scenario for the time tracker: a watch page headed
  \<open>Learn React in 30 Minutes\<close>, allowed keywords \<open>react\<close>, 90 seconds after the baseline.
\<close>

definition watchState :: state where
  "watchState =
     sampleState\<lparr>settings := sampleSettings\<lparr>allowedKeywords := Some [str ''react'']\<rparr>\<rparr>"

text \<open>
  A stored settings object without a blocked list and without stats, and a store that
  cannot be accessed.
\<close>

definition storedWithoutBlocked :: focusSettings where
  "storedWithoutBlocked =
     \<lparr> focusModeEnabled = True, allowedKeywords = Some [str ''python''], blockedKeywords = None,
       stats = None \<rparr>"

definition missingListState :: state where
  "missingListState =
     sampleState\<lparr>sync :=
       \<lparr> storedSettings = Some storedWithoutBlocked, getFails = False, setFails = False \<rparr>\<rparr>"

definition failingState :: state where
  "failingState =
     sampleState\<lparr>sync := \<lparr> storedSettings = None, getFails = True, setFails = True \<rparr>\<rparr>"

text \<open>The settings update that turns focus mode off, as a message and as an event.\<close>

definition disableUpdate :: message where
  "disableUpdate = SETTINGS_UPDATED (sampleSettings\<lparr>focusModeEnabled := False\<rparr>)"

definition disableMessage :: event where
  "disableMessage = RuntimeMessage disableUpdate"

text \<open>
  A page on which the fourth card was scanned before its title was rendered: the sample
  page after the enabling update, then the title \<open>Prank Wars\<close> arrives, then a poll.
\<close>

definition lateTitleState :: state where
  "lateTitleState =
     (let st1 = stateOf (handleMessage asciiLowerCase (SETTINGS_UPDATED sampleSettings) sampleState);
          es = elements (doc st1);
          st2 = setElements (es[3 := (es ! 3)\<lparr>videoTitle := Some (str ''Prank Wars'')\<rparr>]) st1
      in stateOf (handleEvent asciiLowerCase IntervalTick st2))"

section \<open>Properties\<close>

subsection \<open>Strings and classification\<close>

lemma includesStr_sublist: "includesStr s k = sublist k s"
  by (induction s) (simp_all add: sublist_Cons_right)

lemma anyKeywordIn_iff:
  "anyKeywordIn lower x ks = (\<exists>k \<in> set ks. \<exists>before after. x = before @ lower k @ after)"
  by (induction ks) (simp_all add: includesStr_sublist sublist_def)

lemma anyKeywordIn_map:
  "anyKeywordIn lower x ks = (\<exists>y \<in> set (map lower ks). sublist y x)"
  by (induction ks) (simp_all add: includesStr_sublist)

lemma anyKeywordIn_cong:
  "map lower ks' = map lower ks \<Longrightarrow> anyKeywordIn lower x ks' = anyKeywordIn lower x ks"
  by (simp only: anyKeywordIn_map)

lemma classifyContent_folded:
  assumes "lower t' = lower t" and "map lower A' = map lower A" and "map lower B' = map lower B"
  shows "classifyContent lower (s\<lparr>allowedKeywords := Some A', blockedKeywords := Some B'\<rparr>) t' =
     classifyContent lower (s\<lparr>allowedKeywords := Some A, blockedKeywords := Some B\<rparr>) t"
proof -
  have a: "anyKeywordIn lower (lower t) A' = anyKeywordIn lower (lower t) A"
    using assms(2) by (rule anyKeywordIn_cong)
  have b: "anyKeywordIn lower (lower t) B' = anyKeywordIn lower (lower t) B"
    using assms(3) by (rule anyKeywordIn_cong)
  show ?thesis by (simp add: classifyContent_def Let_def a b assms(1))
qed

text \<open>
  C1. Whatever function \<open>lower\<close> the platform's \<open>toLowerCase\<close> is: with allowed list \<open>A\<close> and
  blocked list \<open>B\<close>, \<open>classifyContent\<close> answers blocked when the lower-cased text contains
  the lower-cased form of some keyword of \<open>B\<close> as a contiguous run (whatever \<open>A\<close> holds),
  otherwise educational when it contains that of some keyword of \<open>A\<close>, otherwise neutral.
  The answer depends on the text and on the keywords through their lower-case forms only:
  texts and keyword lists that differ in case alone are classified alike.
\<close>

theorem classifyContent_spec:
  "classifyContent lower (s\<lparr>allowedKeywords := Some A, blockedKeywords := Some B\<rparr>) t =
     Inr (if \<exists>k \<in> set B. \<exists>before after. lower t = before @ lower k @ after then Blocked
          else if \<exists>k \<in> set A. \<exists>before after. lower t = before @ lower k @ after then Educational
          else Neutral) \<and>
   (lower t' = lower t \<and> map lower A' = map lower A \<and> map lower B' = map lower B \<longrightarrow>
      classifyContent lower (s\<lparr>allowedKeywords := Some A', blockedKeywords := Some B'\<rparr>) t' =
      classifyContent lower (s\<lparr>allowedKeywords := Some A, blockedKeywords := Some B\<rparr>) t)"
proof (intro conjI impI)
  show "classifyContent lower (s\<lparr>allowedKeywords := Some A, blockedKeywords := Some B\<rparr>) t =
     Inr (if \<exists>k \<in> set B. \<exists>before after. lower t = before @ lower k @ after then Blocked
          else if \<exists>k \<in> set A. \<exists>before after. lower t = before @ lower k @ after then Educational
          else Neutral)"
    by (simp add: classifyContent_def Let_def anyKeywordIn_iff)
next
  assume "lower t' = lower t \<and> map lower A' = map lower A \<and> map lower B' = map lower B"
  then show "classifyContent lower (s\<lparr>allowedKeywords := Some A', blockedKeywords := Some B'\<rparr>) t' =
      classifyContent lower (s\<lparr>allowedKeywords := Some A, blockedKeywords := Some B\<rparr>) t"
    by (intro classifyContent_folded) simp_all
qed

theorem classifyContent_spec_witness:
  "classifyContent asciiLowerCase
     (sampleSettings\<lparr>allowedKeywords := Some [str ''python''], blockedKeywords := Some [str ''prank'']\<rparr>)
     (str ''Python Prank Compilation'') = Inr Blocked \<and>
   classifyContent asciiLowerCase
     (sampleSettings\<lparr>allowedKeywords := Some [str ''python''], blockedKeywords := Some [str ''prank'']\<rparr>)
     (str ''Intro to Python Tutorial'') = Inr Educational \<and>
   classifyContent asciiLowerCase
     (sampleSettings\<lparr>allowedKeywords := Some [str ''python''], blockedKeywords := Some [str ''prank'']\<rparr>)
     (str ''Cooking Pasta'') = Inr Neutral \<and>
   classifyContent asciiLowerCase
     (sampleSettings\<lparr>allowedKeywords := Some [str ''PYTHON''], blockedKeywords := Some [str ''Prank'']\<rparr>)
     (str ''INTRO TO PYTHON'') =
   classifyContent asciiLowerCase
     (sampleSettings\<lparr>allowedKeywords := Some [str ''python''], blockedKeywords := Some [str ''prank'']\<rparr>)
     (str ''intro to python'')"
proof -
  let ?A = "[str ''python'']" and ?B = "[str ''prank'']"
  have b1: "\<exists>k \<in> set ?B. \<exists>before after.
      asciiLowerCase (str ''Python Prank Compilation'') = before @ asciiLowerCase k @ after"
    unfolding anyKeywordIn_iff [symmetric] by code_simp
  have b2: "\<not> (\<exists>k \<in> set ?B. \<exists>before after.
      asciiLowerCase (str ''Intro to Python Tutorial'') = before @ asciiLowerCase k @ after)"
    unfolding anyKeywordIn_iff [symmetric] by code_simp
  have a2: "\<exists>k \<in> set ?A. \<exists>before after.
      asciiLowerCase (str ''Intro to Python Tutorial'') = before @ asciiLowerCase k @ after"
    unfolding anyKeywordIn_iff [symmetric] by code_simp
  have b3: "\<not> (\<exists>k \<in> set ?B. \<exists>before after.
      asciiLowerCase (str ''Cooking Pasta'') = before @ asciiLowerCase k @ after)"
    unfolding anyKeywordIn_iff [symmetric] by code_simp
  have a3: "\<not> (\<exists>k \<in> set ?A. \<exists>before after.
      asciiLowerCase (str ''Cooking Pasta'') = before @ asciiLowerCase k @ after)"
    unfolding anyKeywordIn_iff [symmetric] by code_simp
  have same: "asciiLowerCase (str ''INTRO TO PYTHON'') = asciiLowerCase (str ''intro to python'') \<and>
      map asciiLowerCase [str ''PYTHON''] = map asciiLowerCase ?A \<and>
      map asciiLowerCase [str ''Prank''] = map asciiLowerCase ?B"
    by code_simp
  note c = classifyContent_spec [where lower = asciiLowerCase and s = sampleSettings
      and A = ?A and B = ?B]
  from c [where t = "str ''Python Prank Compilation''", THEN conjunct1] b1
  have 1: "classifyContent asciiLowerCase
     (sampleSettings\<lparr>allowedKeywords := Some ?A, blockedKeywords := Some ?B\<rparr>)
     (str ''Python Prank Compilation'') = Inr Blocked"
    by (simp only: if_True)
  from c [where t = "str ''Intro to Python Tutorial''", THEN conjunct1] b2 a2
  have 2: "classifyContent asciiLowerCase
     (sampleSettings\<lparr>allowedKeywords := Some ?A, blockedKeywords := Some ?B\<rparr>)
     (str ''Intro to Python Tutorial'') = Inr Educational"
    by (simp only: if_True if_False)
  from c [where t = "str ''Cooking Pasta''", THEN conjunct1] b3 a3
  have 3: "classifyContent asciiLowerCase
     (sampleSettings\<lparr>allowedKeywords := Some ?A, blockedKeywords := Some ?B\<rparr>)
     (str ''Cooking Pasta'') = Inr Neutral"
    by (simp only: if_False)
  note 4 = c [where t = "str ''intro to python''" and t' = "str ''INTRO TO PYTHON''"
      and A' = "[str ''PYTHON'']" and B' = "[str ''Prank'']", THEN conjunct2, THEN mp, OF same]
  from 1 2 3 4 show ?thesis by (intro conjI)
qed

subsection \<open>The loop over the content cards\<close>

lemma filterVideo_processed:
  "focusProcessed el = Some (str ''true'') \<Longrightarrow> filterVideo lower s el = (el, Inr 0)"
  by (simp add: filterVideo_def)

lemma filterVideo_cases:
  "fst (filterVideo lower s el) = el \<or>
   fst (filterVideo lower s el) = el\<lparr>focusProcessed := Some (str ''true'')\<rparr> \<or>
   fst (filterVideo lower s el) = hideVideo (el\<lparr>focusProcessed := Some (str ''true'')\<rparr>) \<or>
   fst (filterVideo lower s el) = markAsEducational (el\<lparr>focusProcessed := Some (str ''true'')\<rparr>)"
  by (simp add: filterVideo_def Let_def split: option.split sum.split classification.split)

lemma filterVideo_marks:
  "focusProcessed (fst (filterVideo lower s el)) = Some (str ''true'')"
  by (simp add: filterVideo_def Let_def hideVideo_def markAsEducational_def
      split: option.split sum.split classification.split)

lemma forEachVideo_length: "forEachVideo lower s es n = (es', r) \<Longrightarrow> length es' = length es"
  by (induction es arbitrary: n es' r) (auto split: if_splits prod.splits sum.splits)

lemma forEachVideo_touched:
  "forEachVideo lower s es n = (es', r) \<Longrightarrow> list_all2 (touched lower s) es es'"
proof (induction es arbitrary: n es' r)
  case Nil
  then show ?case by simp
next
  case (Cons el es)
  have same: "list_all2 (touched lower s) es es"
    by (simp add: list_all2_same touched_def)
  show ?case
  proof (cases "matchesVideoRenderer el")
    case False
    obtain es1 r1 where rec: "forEachVideo lower s es n = (es1, r1)"
      by (cases "forEachVideo lower s es n")
    with Cons.prems False have "es' = el # es1" by simp
    with Cons.IH[OF rec] show ?thesis by (simp add: touched_def)
  next
    case True
    obtain el1 out where fv: "filterVideo lower s el = (el1, out)"
      by (cases "filterVideo lower s el")
    then have t: "touched lower s el el1" using True by (simp add: touched_def)
    show ?thesis
    proof (cases out)
      case (Inl err)
      with Cons.prems True fv have "es' = el1 # es" by simp
      with t same show ?thesis by simp
    next
      case (Inr k)
      obtain es1 r1 where rec: "forEachVideo lower s es (n + k) = (es1, r1)"
        by (cases "forEachVideo lower s es (n + k)")
      with Cons.prems True fv Inr have "es' = el1 # es1" by simp
      with t Cons.IH[OF rec] show ?thesis by simp
    qed
  qed
qed


lemma forEachVideo_Inr:
  "forEachVideo lower s es n = (es', Inr c) \<Longrightarrow>
     es' = map (\<lambda>el. if matchesVideoRenderer el then fst (filterVideo lower s el) else el) es"
  by (induction es arbitrary: n es' c) (auto split: if_splits prod.splits sum.splits)

lemma forEachVideo_all_processed:
  "\<forall>el \<in> set es. matchesVideoRenderer el \<longrightarrow> focusProcessed el = Some (str ''true'') \<Longrightarrow>
     forEachVideo lower s es n = (es, Inr n)"
  by (induction es arbitrary: n) (auto simp: filterVideo_processed)

lemma setElements_same: "setElements (elements (doc st)) st = st"
  by (simp add: setElements_def)

lemma filterVideos_skip:
  "\<forall>el \<in> set (elements (doc st)). matchesVideoRenderer el \<longrightarrow> focusProcessed el = Some (str ''true'') \<Longrightarrow>
     filterVideos lower st = Returned st"
  by (simp add: filterVideos_def forEachVideo_all_processed setElements_same)

subsection \<open>What a pass keeps\<close>

lemma grows_refl: "grows el el"
  by (simp add: grows_def)

lemma grows_trans: "grows a b \<Longrightarrow> grows b c \<Longrightarrow> grows a c"
  by (simp add: grows_def)

lemma grows_hide: "grows el (addFocusHidden el)"
  by (simp add: grows_def addFocusHidden_def)

lemma grows_markAsEducational: "grows el (markAsEducational (el\<lparr>focusProcessed := Some (str ''true'')\<rparr>))"
  by (simp add: grows_def markAsEducational_def split: option.split)

lemma grows_hideVideo: "grows el (hideVideo (el\<lparr>focusProcessed := Some (str ''true'')\<rparr>))"
  by (simp add: grows_def hideVideo_def)

lemma grows_processed: "grows el (el\<lparr>focusProcessed := Some (str ''true'')\<rparr>)"
  by (simp add: grows_def)

lemma grows_filterVideo: "grows el (fst (filterVideo lower s el))"
  using filterVideo_cases [of lower s el] grows_markAsEducational [of el] grows_hideVideo [of el]
    grows_processed [of el] grows_refl [of el]
  by auto

lemma grows_touched: "touched lower s el el' \<Longrightarrow> grows el el'"
  by (auto simp: touched_def grows_refl grows_filterVideo)

lemma length_forEachMatching: "length (forEachMatching sel f es) = length es"
  by (simp add: forEachMatching_def)

lemma length_firstMatching: "length (firstMatching sel f es) = length es"
  by (induction es) simp_all

lemma forEachMatching_all2:
  "(\<And>el. Q el el) \<Longrightarrow> (\<And>el. sel el \<Longrightarrow> Q el (f el)) \<Longrightarrow> list_all2 Q es (forEachMatching sel f es)"
  by (simp add: forEachMatching_def list_all2_conv_all_nth)

lemma firstMatching_all2:
  "(\<And>el. Q el el) \<Longrightarrow> (\<And>el. sel el \<Longrightarrow> Q el (f el)) \<Longrightarrow> list_all2 Q es (firstMatching sel f es)"
  by (induction es) (simp_all add: list_all2_same)

lemma firstMatching_first:
  "i < length es \<Longrightarrow> sel (es ! i) \<Longrightarrow> \<forall>j < i. \<not> sel (es ! j) \<Longrightarrow>
     firstMatching sel f es ! i = f (es ! i)"
proof (induction es arbitrary: i)
  case Nil
  then show ?case by simp
next
  case (Cons el es)
  show ?case
  proof (cases i)
    case 0
    with Cons.prems show ?thesis by simp
  next
    case (Suc k)
    with Cons.prems have "\<not> sel el" by auto
    moreover from Suc Cons.prems have "\<forall>j < k. \<not> sel (es ! j)" by auto
    ultimately show ?thesis using Suc Cons.prems Cons.IH[of k] by simp
  qed
qed

lemma list_all2_grows_trans:
  "list_all2 grows xs ys \<Longrightarrow> list_all2 grows ys zs \<Longrightarrow> list_all2 grows xs zs"
  by (rule list_all2_trans[where ?P1.0 = grows and ?P2.0 = grows]) (auto intro: grows_trans)

lemma doc_updateBlockedCount: "doc (updateBlockedCount c st) = doc st"
  by (simp add: updateBlockedCount_def)

lemma doc_updateEducationalTime: "doc (updateEducationalTime m st) = doc st"
  by (simp add: updateEducationalTime_def)

lemma doc_trackEducationalTime: "doc (stateOf (trackEducationalTime lower st)) = doc st"
  by (simp add: trackEducationalTime_def Let_def doc_updateEducationalTime split: option.split)

lemma elements_setElements: "elements (doc (setElements es st)) = es"
  by (simp add: setElements_def)

lemma elements_filterVideos:
  "\<exists>r. forEachVideo lower (settings st) (elements (doc st)) 0 = (elements (doc (stateOf (filterVideos lower st))), r)"
  by (cases "forEachVideo lower (settings st) (elements (doc st)) 0")
     (auto simp: filterVideos_def doc_updateBlockedCount elements_setElements split: sum.split)

lemma settings_hideShorts: "settings (hideShorts st) = settings st"
  by (simp add: hideShorts_def setElements_def Let_def)

lemma elements_scanAndFilter_enabled:
  assumes "focusModeEnabled (settings st)"
  shows "\<exists>r. forEachVideo lower (settings st) (elements (doc (hideShorts st))) 0 =
           (elements (doc (stateOf (scanAndFilter lower st))), r)"
proof -
  obtain r where r: "forEachVideo lower (settings (hideShorts st)) (elements (doc (hideShorts st))) 0 =
      (elements (doc (stateOf (filterVideos lower (hideShorts st)))), r)"
    using elements_filterVideos by blast
  have "doc (stateOf (scanAndFilter lower st)) = doc (stateOf (filterVideos lower (hideShorts st)))"
    using assms
    by (cases "filterVideos lower (hideShorts st)") (simp_all add: scanAndFilter_def doc_trackEducationalTime)
  with r show ?thesis by (auto simp: settings_hideShorts)
qed

lemma hideShorts_grows: "list_all2 grows (elements (doc st)) (elements (doc (hideShorts st)))"
  unfolding hideShorts_def Let_def elements_setElements
  by (intro list_all2_grows_trans[OF forEachMatching_all2 list_all2_grows_trans[OF firstMatching_all2 forEachMatching_all2]])
     (simp_all add: grows_refl grows_hide)

lemma scanAndFilter_grows:
  assumes "focusModeEnabled (settings st)"
  shows "list_all2 grows (elements (doc st)) (elements (doc (stateOf (scanAndFilter lower st))))"
proof -
  obtain r where "forEachVideo lower (settings st) (elements (doc (hideShorts st))) 0 =
           (elements (doc (stateOf (scanAndFilter lower st))), r)"
    using elements_scanAndFilter_enabled[OF assms] by blast
  then have "list_all2 (touched lower (settings st)) (elements (doc (hideShorts st)))
      (elements (doc (stateOf (scanAndFilter lower st))))"
    by (rule forEachVideo_touched)
  then have "list_all2 grows (elements (doc (hideShorts st)))
      (elements (doc (stateOf (scanAndFilter lower st))))"
    by (rule list_all2_mono) (rule grows_touched)
  with hideShorts_grows show ?thesis by (rule list_all2_grows_trans)
qed

subsection \<open>Shorts and repeated passes\<close>

lemma hideShorts_hidden:
  assumes i: "i < length (elements (doc st))"
    and c: "matchesShorts (elements (doc st) ! i) \<or> matchesShortsSection (elements (doc st) ! i) \<or>
       (matchesShortsTab (elements (doc st) ! i) \<and>
        (\<forall>j < i. \<not> matchesShortsTab (elements (doc st) ! j)))"
  shows "focusHidden (elements (doc (hideShorts st)) ! i)"
proof -
  define es where "es = elements (doc st)"
  define es1 where "es1 = forEachMatching matchesShorts addFocusHidden es"
  define es2 where "es2 = firstMatching matchesShortsTab addFocusHidden es1"
  define es3 where "es3 = forEachMatching matchesShortsSection addFocusHidden es2"
  have res: "elements (doc (hideShorts st)) = es3"
    by (simp add: hideShorts_def Let_def elements_setElements es3_def es2_def es1_def es_def)
  have g1: "list_all2 grows es es1" unfolding es1_def
    by (rule forEachMatching_all2) (simp_all add: grows_refl grows_hide)
  have g2: "list_all2 grows es1 es2" unfolding es2_def
    by (rule firstMatching_all2) (simp_all add: grows_refl grows_hide)
  have g3: "list_all2 grows es2 es3" unfolding es3_def
    by (rule forEachMatching_all2) (simp_all add: grows_refl grows_hide)
  have l1: "i < length es1" and l2: "i < length es2" and l0: "i < length es"
    using i by (simp_all add: es1_def es2_def es_def length_forEachMatching length_firstMatching)
  have n1: "grows (es ! i) (es1 ! i)" using g1 l0 by (rule list_all2_nthD)
  have n2: "grows (es1 ! i) (es2 ! i)" using g2 l1 by (rule list_all2_nthD)
  have n3: "grows (es2 ! i) (es3 ! i)" using g3 l2 by (rule list_all2_nthD)
  have e1: "es1 ! i = (if matchesShorts (es ! i) then addFocusHidden (es ! i) else es ! i)"
    using l0 by (simp add: es1_def forEachMatching_def)
  have e3: "es3 ! i = (if matchesShortsSection (es2 ! i) then addFocusHidden (es2 ! i) else es2 ! i)"
    using l2 by (simp add: es3_def forEachMatching_def)
  from c consider (isShorts) "matchesShorts (es ! i)" | (isSection) "matchesShortsSection (es ! i)"
    | (isTab) "matchesShortsTab (es ! i)" "\<forall>j < i. \<not> matchesShortsTab (es ! j)"
    by (auto simp: es_def)
  then have "focusHidden (es3 ! i)"
  proof cases
    case isShorts
    with e1 have "focusHidden (es1 ! i)" by (simp add: addFocusHidden_def)
    with n2 n3 show ?thesis by (simp add: grows_def)
  next
    case isSection
    with n1 n2 have "matchesShortsSection (es2 ! i)" by (simp add: grows_def)
    with e3 show ?thesis by (simp add: addFocusHidden_def)
  next
    case isTab
    have "matchesShortsTab (es1 ! i)" using isTab(1) n1 by (simp add: grows_def)
    moreover have "\<forall>j < i. \<not> matchesShortsTab (es1 ! j)"
    proof (intro allI impI)
      fix j assume "j < i"
      with l0 have "j < length es" by simp
      with g1 have "grows (es ! j) (es1 ! j)" by (rule list_all2_nthD)
      with isTab(2) \<open>j < i\<close> show "\<not> matchesShortsTab (es1 ! j)" by (simp add: grows_def)
    qed
    ultimately have "es2 ! i = addFocusHidden (es1 ! i)"
      unfolding es2_def using l1 by (simp add: firstMatching_first)
    then have "focusHidden (es2 ! i)" by (simp add: addFocusHidden_def)
    with n3 show ?thesis by (simp add: grows_def)
  qed
  with res show ?thesis by simp
qed

text \<open>
  C9. While focus mode is on, a scan pass leaves every element matching the Shorts
  selector or the Shorts-section selector hidden, and the first element matching the
  Shorts-tab selector too (the script looks the tab up with \<open>querySelector\<close>), whatever
  the keyword lists hold (also when one is missing and the pass ends in an exception) and
  whatever the element's text is.
\<close>

theorem scan_hides_shorts:
  "focusModeEnabled (settings st) \<Longrightarrow>
   length (elements (doc (stateOf (scanAndFilter lower st)))) = length (elements (doc st)) \<and>
   (\<forall>i < length (elements (doc st)).
      matchesShorts (elements (doc st) ! i) \<or> matchesShortsSection (elements (doc st) ! i) \<or>
      (matchesShortsTab (elements (doc st) ! i) \<and>
       (\<forall>j < i. \<not> matchesShortsTab (elements (doc st) ! j)))
      \<longrightarrow> focusHidden (elements (doc (stateOf (scanAndFilter lower st))) ! i))"
proof -
  assume en: "focusModeEnabled (settings st)"
  obtain r where r: "forEachVideo lower (settings st) (elements (doc (hideShorts st))) 0 =
           (elements (doc (stateOf (scanAndFilter lower st))), r)"
    using elements_scanAndFilter_enabled[OF en] by blast
  have g: "list_all2 grows (elements (doc (hideShorts st))) (elements (doc (stateOf (scanAndFilter lower st))))"
    using forEachVideo_touched[OF r] by (rule list_all2_mono) (rule grows_touched)
  have len0: "length (elements (doc (hideShorts st))) = length (elements (doc st))"
    using hideShorts_grows[of st] by (simp add: list_all2_lengthD)
  have len: "length (elements (doc (stateOf (scanAndFilter lower st)))) = length (elements (doc st))"
    using g len0 by (simp add: list_all2_lengthD)
  have "focusHidden (elements (doc (stateOf (scanAndFilter lower st))) ! i)"
    if i: "i < length (elements (doc st))"
      and c: "matchesShorts (elements (doc st) ! i) \<or> matchesShortsSection (elements (doc st) ! i) \<or>
      (matchesShortsTab (elements (doc st) ! i) \<and>
       (\<forall>j < i. \<not> matchesShortsTab (elements (doc st) ! j)))" for i
  proof -
    have "focusHidden (elements (doc (hideShorts st)) ! i)"
      using i c by (rule hideShorts_hidden)
    moreover have "grows (elements (doc (hideShorts st)) ! i) (elements (doc (stateOf (scanAndFilter lower st))) ! i)"
      using g i len0 by (simp add: list_all2_nthD)
    ultimately show ?thesis by (simp add: grows_def)
  qed
  with len show ?thesis by blast
qed

theorem scan_hides_shorts_witness:
  "focusModeEnabled (settings sampleState) \<and>
   matchesShorts (elements (doc sampleState) ! 4) \<and>
   focusHidden (elements (doc (stateOf (scanAndFilter asciiLowerCase sampleState))) ! 4)"
proof -
  have en: "focusModeEnabled (settings sampleState)"
    by (simp add: sampleState_def sampleSettings_def)
  have len: "4 < length (elements (doc sampleState))"
    by (simp add: sampleState_def samplePage_def)
  have sh: "matchesShorts (elements (doc sampleState) ! 4)"
    by (simp add: sampleState_def samplePage_def plainElement_def)
  from scan_hides_shorts[OF en] len sh
  have "focusHidden (elements (doc (stateOf (scanAndFilter asciiLowerCase sampleState))) ! 4)" by blast
  with en sh show ?thesis by simp
qed

lemma filterVideo_matches:
  "matchesVideoRenderer (fst (filterVideo lower s el)) = matchesVideoRenderer el"
  using grows_filterVideo[of el lower s] by (simp add: grows_def)

text \<open>
  C2. When every content card carries the processed marker, \<open>filterVideos\<close> returns the
  state it was given: nothing is hidden, no badge is attached, and neither the store nor
  the in-memory settings change. Hence a second pass right after a pass that returned
  changes nothing.
\<close>

theorem filterVideos_second_pass:
  "((\<forall>el \<in> set (elements (doc st)).
       matchesVideoRenderer el \<longrightarrow> focusProcessed el = Some (str ''true''))
     \<longrightarrow> filterVideos lower st = Returned st) \<and>
   (filterVideos lower st = Returned st1 \<longrightarrow> filterVideos lower st1 = Returned st1)"
proof (intro conjI impI)
  assume "\<forall>el \<in> set (elements (doc st)).
       matchesVideoRenderer el \<longrightarrow> focusProcessed el = Some (str ''true'')"
  then show "filterVideos lower st = Returned st" by (rule filterVideos_skip)
next
  assume ret: "filterVideos lower st = Returned st1"
  obtain es out where loop: "forEachVideo lower (settings st) (elements (doc st)) 0 = (es, out)"
    by (cases "forEachVideo lower (settings st) (elements (doc st)) 0")
  with ret obtain n where out: "out = Inr n"
    by (cases out) (simp_all add: filterVideos_def)
  from ret loop out have "elements (doc st1) = es"
    by (auto simp: filterVideos_def doc_updateBlockedCount elements_setElements
        split: if_splits)
  moreover from loop out have "es = map (\<lambda>el. if matchesVideoRenderer el then fst (filterVideo lower (settings st) el) else el) (elements (doc st))"
    by (simp add: forEachVideo_Inr)
  ultimately have "\<forall>el \<in> set (elements (doc st1)).
       matchesVideoRenderer el \<longrightarrow> focusProcessed el = Some (str ''true'')"
    by (auto simp: filterVideo_marks filterVideo_matches)
  then show "filterVideos lower st1 = Returned st1" by (rule filterVideos_skip)
qed

theorem filterVideos_second_pass_witness:
  "filterVideos asciiLowerCase markedState = Returned markedState \<and>
   filterVideos asciiLowerCase (stateOf (filterVideos asciiLowerCase sampleState)) =
     Returned (stateOf (filterVideos asciiLowerCase sampleState))"
proof -
  have marked: "\<forall>el \<in> set (elements (doc markedState)).
      matchesVideoRenderer el \<longrightarrow> focusProcessed el = Some (str ''true'')"
    by (auto simp: markedState_def elements_setElements)
  have first: "filterVideos asciiLowerCase sampleState =
      Returned (stateOf (filterVideos asciiLowerCase sampleState))"
    by code_simp
  from filterVideos_second_pass [where lower = asciiLowerCase and st = markedState] marked
  have a: "filterVideos asciiLowerCase markedState = Returned markedState" by blast
  from filterVideos_second_pass [where lower = asciiLowerCase and st = sampleState
      and ?st1.0 = "stateOf (filterVideos asciiLowerCase sampleState)"] first
  have b: "filterVideos asciiLowerCase (stateOf (filterVideos asciiLowerCase sampleState)) =
      Returned (stateOf (filterVideos asciiLowerCase sampleState))" by blast
  from a b show ?thesis by simp
qed

subsection \<open>Focus mode off\<close>

lemma firstMatching_id: "(\<And>el. el \<in> set es \<Longrightarrow> sel el \<Longrightarrow> f el = el) \<Longrightarrow> firstMatching sel f es = es"
  by (induction es) simp_all

lemma strip_processed_eq:
  "forEachMatching (\<lambda>el. focusProcessed el \<noteq> None) (\<lambda>el. el\<lparr>focusProcessed := None\<rparr>) es =
     map (\<lambda>el. el\<lparr>focusProcessed := None\<rparr>) es"
  by (simp add: forEachMatching_def)

lemma unhide_eq:
  "forEachMatching focusHidden (\<lambda>el. el\<lparr>focusHidden := False\<rparr>) es =
     map (\<lambda>el. el\<lparr>focusHidden := False\<rparr>) es"
  by (simp add: forEachMatching_def)

lemma elements_hideFocusDashboard_plain:
  "\<forall>el \<in> set (elements (doc st)). \<not> focusHidden el \<Longrightarrow>
     elements (doc (hideFocusDashboard st)) = elements (doc st)"
  by (simp add: hideFocusDashboard_def Let_def firstMatching_id split: option.split)

lemma elements_removeAllFilters:
  "elements (doc (removeAllFilters st)) = map resetElement (elements (doc st))"
proof -
  let ?es = "map resetElement (elements (doc st))"
  have "removeAllFilters st = hideFocusDashboard (setElements ?es st)"
    unfolding removeAllFilters_def Let_def strip_processed_eq unhide_eq
    by (simp add: resetElement_def[abs_def] comp_def)
  moreover have "elements (doc (hideFocusDashboard (setElements ?es st))) = ?es"
    by (simp add: elements_hideFocusDashboard_plain elements_setElements resetElement_def)
  ultimately show ?thesis by simp
qed

lemma overlay_hideFocusDashboard: "\<not> overlayShown (hideFocusDashboard st)"
  by (simp add: overlayShown_def hideFocusDashboard_def Let_def split: option.split)

lemma overlay_showFocusDashboard: "overlayShown (showFocusDashboard st)"
  by (simp add: overlayShown_def showFocusDashboard_def Let_def)

lemma overlay_removeAllFilters: "\<not> overlayShown (removeAllFilters st)"
  by (simp add: removeAllFilters_def Let_def overlay_hideFocusDashboard)

text \<open>
  C4. With focus mode off, a scan pass returns with every element unhidden, without
  badge and without marker (it hides nothing and attaches nothing), and the overlay is
  not on screen, after the pass and after the homepage check, wherever the page is. In
  general the homepage check leaves the overlay on screen exactly when the location is the
  home surface and focus mode is on.
\<close>

theorem disabled_scan_no_effects:
  "(\<not> focusModeEnabled (settings st) \<longrightarrow>
      (\<exists>st'. scanAndFilter lower st = Returned st' \<and>
         elements (doc st') =
           map (\<lambda>el. el\<lparr>focusHidden := False, eduBadges := 0, focusProcessed := None\<rparr>)
             (elements (doc st)) \<and>
         \<not> overlayShown st') \<and>
      \<not> overlayShown (checkForHomepage st)) \<and>
   overlayShown (checkForHomepage st) = (isHome (doc st) \<and> focusModeEnabled (settings st))"
proof -
  have shown: "overlayShown (checkForHomepage st) = (isHome (doc st) \<and> focusModeEnabled (settings st))"
    by (simp add: checkForHomepage_def overlay_hideFocusDashboard overlay_showFocusDashboard)
  have "elements (doc (removeAllFilters st)) =
      map (\<lambda>el. el\<lparr>focusHidden := False, eduBadges := 0, focusProcessed := None\<rparr>) (elements (doc st))"
    using elements_removeAllFilters[of st] by (simp add: resetElement_def[abs_def])
  then show ?thesis using shown
    by (simp add: scanAndFilter_def overlay_removeAllFilters)
qed

theorem disabled_scan_no_effects_witness:
  "\<not> focusModeEnabled (settings disabledState) \<and> isHome (doc disabledState) \<and>
   \<not> overlayShown (checkForHomepage disabledState) \<and>
   \<not> overlayShown (stateOf (scanAndFilter asciiLowerCase disabledState))"
proof -
  have off: "\<not> focusModeEnabled (settings disabledState)"
    by (simp add: disabledState_def sampleSettings_def)
  have home: "isHome (doc disabledState)"
    by (simp add: disabledState_def isHome_def)
  from disabled_scan_no_effects [of disabledState] off
  have "\<not> overlayShown (checkForHomepage disabledState)"
    and "\<exists>st'. scanAndFilter asciiLowerCase disabledState = Returned st' \<and> \<not> overlayShown st'"
    by blast+
  then have "\<not> overlayShown (checkForHomepage disabledState)"
    and "\<not> overlayShown (stateOf (scanAndFilter asciiLowerCase disabledState))"
    by auto
  with off home show ?thesis by simp
qed






subsection \<open>Store updates and their answers\<close>



lemma runTasks_append: "runTasks (ts @ [t]) st = runTask t (runTasks ts st)"
  by (induction ts arbitrary: st) simp_all

lemma flags_resumeUpdate:
  "getFails (sync (resumeUpdate f answer st)) = getFails (sync st)"
  "setFails (sync (resumeUpdate f answer st)) = setFails (sync st)"
  by (simp_all add: resumeUpdate_def storageSet_def Let_def split: sum.split option.split)

lemma flags_runTask:
  "getFails (sync (runTask t st)) = getFails (sync st)"
  "setFails (sync (runTask t st)) = setFails (sync st)"
  by (cases t; simp add: flags_resumeUpdate)+

lemma flags_runTasks:
  "getFails (sync (runTasks ts st)) = getFails (sync st)"
  "setFails (sync (runTasks ts st)) = setFails (sync st)"
  by (induction ts arbitrary: st) (simp_all add: flags_runTask)

lemma doc_resumeUpdate: "doc (resumeUpdate f answer st) = doc st"
  by (simp add: resumeUpdate_def Let_def split: sum.split option.split)

lemma doc_runTask: "doc (runTask t st) = doc st"
  by (cases t) (simp_all add: doc_resumeUpdate)

lemma doc_storageReply: "doc (storageReply st) = doc st"
  by (simp add: storageReply_def doc_runTask split: list.split)

lemma resumeUpdate_stored:
  "\<not> setFails (sync st) \<Longrightarrow>
     storedSettings (sync (resumeUpdate f (Inr (Some v)) st)) = Some (f v)"
  by (simp add: resumeUpdate_def storageSet_def Let_def)

lemma resumeUpdate_nothing_stored:
  "\<not> setFails (sync st) \<Longrightarrow>
     storedSettings (sync (resumeUpdate f (Inr None) st)) = Some (f (settings st))"
  by (simp add: resumeUpdate_def storageSet_def Let_def)

text \<open>
  A task whose read was answered with the stored object \<open>v\<close> writes \<open>v\<close> with its own
  counter raised, whatever ran before it; with nothing stored it writes the in-memory
  settings, as the tasks before it left them, with the counter raised.
\<close>

lemma settle_last_stored:
  assumes "pending st = ts @ [t]" and "\<not> setFails (sync st)"
    and "t = BlockedCountUpdate n (Inr (Some v)) \<and> f = addBlocked n \<or>
         t = EducationalTimeUpdate n (Inr (Some v)) \<and> f = addMinutes n"
  shows "storedSettings (sync (settle st)) = Some (f v)"
proof -
  let ?x = "runTasks ts (st\<lparr>pending := []\<rparr>)"
  have "\<not> setFails (sync ?x)" using assms(2) by (simp add: flags_runTasks)
  then have "storedSettings (sync (runTask t ?x)) = Some (f v)"
    using assms(3) by (auto simp: resumeUpdate_stored)
  then show ?thesis by (simp add: settle_def assms(1) runTasks_append)
qed

lemma resumeUpdate_core:
  assumes "settings a = settings b" and "sync a = sync b"
  shows "settings (resumeUpdate f answer a) = settings (resumeUpdate f answer b) \<and>
     sync (resumeUpdate f answer a) = sync (resumeUpdate f answer b)"
proof (cases answer)
  case (Inl err)
  with assms show ?thesis by (simp add: resumeUpdate_def)
next
  case (Inr result)
  show ?thesis
  proof (cases result)
    case None
    with Inr assms show ?thesis
      by (cases "setFails (sync b)") (simp_all add: resumeUpdate_def storageSet_def Let_def)
  next
    case (Some v)
    with Inr assms show ?thesis
      by (cases "setFails (sync b)") (simp_all add: resumeUpdate_def storageSet_def Let_def)
  qed
qed

lemma runTask_core:
  assumes "settings a = settings b" and "sync a = sync b"
  shows "settings (runTask t a) = settings (runTask t b) \<and> sync (runTask t a) = sync (runTask t b)"
proof (cases t)
  case (BlockedCountUpdate n answer)
  show ?thesis unfolding BlockedCountUpdate runTask.simps
    using assms by (rule resumeUpdate_core)
next
  case (EducationalTimeUpdate n answer)
  show ?thesis unfolding EducationalTimeUpdate runTask.simps
    using assms by (rule resumeUpdate_core)
qed

lemma runTasks_core:
  "settings a = settings b \<Longrightarrow> sync a = sync b \<Longrightarrow>
     settings (runTasks ts a) = settings (runTasks ts b) \<and>
     sync (runTasks ts a) = sync (runTasks ts b)"
proof (induction ts arbitrary: a b)
  case Nil
  then show ?case by simp
next
  case (Cons t ts)
  from runTask_core[OF Cons.prems, of t]
  have "settings (runTask t a) = settings (runTask t b)"
    and "sync (runTask t a) = sync (runTask t b)"
    by blast+
  then have "settings (runTasks ts (runTask t a)) = settings (runTasks ts (runTask t b)) \<and>
     sync (runTasks ts (runTask t a)) = sync (runTasks ts (runTask t b))"
    by (rule Cons.IH)
  then show ?case by (simp only: runTasks.simps)
qed

lemma settle_last:
  assumes p: "pending st' = pending st @ [t]"
    and same: "settings st' = settings st" "sync st' = sync st"
    and works: "\<not> getFails (sync st)" "\<not> setFails (sync st)"
    and t: "t = BlockedCountUpdate n (storageGet (sync st)) \<and> f = addBlocked n \<or>
         t = EducationalTimeUpdate n (storageGet (sync st)) \<and> f = addMinutes n"
  shows "storedSettings (sync (settle st')) =
     Some (f (case storedSettings (sync st) of Some v \<Rightarrow> v | None \<Rightarrow> settings (settle st)))"
proof -
  let ?x' = "runTasks (pending st) (st'\<lparr>pending := []\<rparr>)"
  have core: "settings ?x' = settings (settle st) \<and> sync ?x' = sync (settle st)"
    unfolding settle_def by (rule runTasks_core) (simp_all add: same)
  have ok: "\<not> setFails (sync ?x')"
    using works same by (simp add: flags_runTasks)
  have run: "settle st' = runTask t ?x'"
    by (simp add: settle_def p runTasks_append)
  show ?thesis
  proof (cases "storedSettings (sync st)")
    case None
    with t works have "t = BlockedCountUpdate n (Inr None) \<and> f = addBlocked n \<or>
         t = EducationalTimeUpdate n (Inr None) \<and> f = addMinutes n"
      by (auto simp: storageGet_def)
    with ok have "storedSettings (sync (runTask t ?x')) = Some (f (settings ?x'))"
      by (auto simp: resumeUpdate_nothing_stored)
    with None core run show ?thesis by simp
  next
    case (Some v)
    with t works have "t = BlockedCountUpdate n (Inr (Some v)) \<and> f = addBlocked n \<or>
         t = EducationalTimeUpdate n (Inr (Some v)) \<and> f = addMinutes n"
      by (auto simp: storageGet_def)
    with ok have "storedSettings (sync (runTask t ?x')) = Some (f v)"
      by (auto simp: resumeUpdate_stored)
    with Some run show ?thesis by simp
  qed
qed

lemma settle_nothing_pending: "pending st = [] \<Longrightarrow> settle st = st"
  by (simp add: settle_def)

lemma addBlocked_fields:
  "\<exists>newStats. stats (addBlocked c base) = Some newStats \<and>
     blockedCount newStats =
       Some ((case stats base of None \<Rightarrow> 0
              | Some x \<Rightarrow> (case blockedCount x of None \<Rightarrow> 0 | Some k \<Rightarrow> k)) + c) \<and>
     educationalMinutes newStats =
       (case stats base of None \<Rightarrow> None | Some x \<Rightarrow> educationalMinutes x) \<and>
     focusStreak newStats = (case stats base of None \<Rightarrow> None | Some x \<Rightarrow> focusStreak x) \<and>
     lastActiveDate newStats = (case stats base of None \<Rightarrow> None | Some x \<Rightarrow> lastActiveDate x)"
  "focusModeEnabled (addBlocked c base) = focusModeEnabled base"
  "allowedKeywords (addBlocked c base) = allowedKeywords base"
  "blockedKeywords (addBlocked c base) = blockedKeywords base"
  by (simp_all add: addBlocked_def statsOrEmpty_def emptyStats_def orZero_def Let_def
      split: option.split)

lemma addMinutes_fields:
  "\<exists>newStats. stats (addMinutes m base) = Some newStats \<and>
     educationalMinutes newStats =
       Some ((case stats base of None \<Rightarrow> 0
              | Some x \<Rightarrow> (case educationalMinutes x of None \<Rightarrow> 0 | Some k \<Rightarrow> k)) + m) \<and>
     blockedCount newStats = (case stats base of None \<Rightarrow> None | Some x \<Rightarrow> blockedCount x) \<and>
     focusStreak newStats = (case stats base of None \<Rightarrow> None | Some x \<Rightarrow> focusStreak x) \<and>
     lastActiveDate newStats = (case stats base of None \<Rightarrow> None | Some x \<Rightarrow> lastActiveDate x)"
  "focusModeEnabled (addMinutes m base) = focusModeEnabled base"
  "allowedKeywords (addMinutes m base) = allowedKeywords base"
  "blockedKeywords (addMinutes m base) = blockedKeywords base"
  by (simp_all add: addMinutes_def statsOrEmpty_def emptyStats_def orZero_def Let_def
      split: option.split)

subsection \<open>Reporting the blocked count\<close>




subsection \<open>Time tracking\<close>

text \<open>
  C6, as the claim states it, fails: in the spec's scenario, 90 seconds after the baseline,
  one minute is due and the baseline moves by the full 90 seconds, not by 60.
\<close>

theorem trackEducationalTime_remainder_counterexample:
  "includesStr (pathname (doc watchState)) (str ''/watch'') \<and>
   watchHeading (doc watchState) = Some (str ''Learn React in 30 Minutes'') \<and>
   allowedKeywords (settings watchState) = Some [str ''react''] \<and>
   now watchState - lastTrackTime watchState = 90000 \<and>
   (now watchState - lastTrackTime watchState) div 60000 = 1 \<and>
   lastTrackTime (stateOf (trackEducationalTime asciiLowerCase watchState)) -
     lastTrackTime watchState = 90000 \<and>
   lastTrackTime (stateOf (trackEducationalTime asciiLowerCase watchState)) -
     lastTrackTime watchState \<noteq>
     ((now watchState - lastTrackTime watchState) div 60000) * 60000"
  by code_simp

text \<open>
  C6, amended. On a watch page whose heading contains an allowed keyword, with at least
  one whole minute elapsed since the baseline, \<open>trackEducationalTime\<close> returns, the baseline
  becomes the current time (it advances by all of the elapsed time, so the remainder below
  a minute is dropped), and it reports the whole minutes elapsed: it issues exactly one
  update, carrying that amount. With a working store, once the waiting updates up to this
  one are through, the stored \<open>stats.educationalMinutes\<close> is that of the object the update
  started from (the stored value its read was answered with, or, when nothing was stored,
  the in-memory settings as the updates waiting before it left them, which with nothing
  waiting are the in-memory settings of before the call) plus the whole minutes elapsed, a
  missing counter read as zero.
\<close>

theorem trackEducationalTime_whole_minutes:
  "includesStr (pathname (doc st)) (str ''/watch'') \<and> watchHeading (doc st) = Some h \<and>
   allowedKeywords (settings st) = Some A \<and>
   (\<exists>k \<in> set A. \<exists>before after. lower h = before @ lower k @ after) \<and>
   1 \<le> (now st - lastTrackTime st) div 60000 \<longrightarrow>
     (\<exists>st'. trackEducationalTime lower st = Returned st' \<and>
        lastTrackTime st' = now st \<and>
        pending st' =
          pending st @
            [EducationalTimeUpdate ((now st - lastTrackTime st) div 60000) (storageGet (sync st))] \<and>
        (\<not> getFails (sync st) \<and> \<not> setFails (sync st) \<and>
         base = (case storedSettings (sync st) of Some v \<Rightarrow> v
                 | None \<Rightarrow> settings (settle st)) \<longrightarrow>
           (\<exists>new newStats.
              storedSettings (sync (settle st')) = Some new \<and> stats new = Some newStats \<and>
              educationalMinutes newStats =
                Some ((case stats base of None \<Rightarrow> 0
                       | Some x \<Rightarrow> (case educationalMinutes x of None \<Rightarrow> 0 | Some k \<Rightarrow> k)) +
                  (now st - lastTrackTime st) div 60000))))"
proof (intro impI)
  assume a: "includesStr (pathname (doc st)) (str ''/watch'') \<and> watchHeading (doc st) = Some h \<and>
   allowedKeywords (settings st) = Some A \<and>
   (\<exists>k \<in> set A. \<exists>before after. lower h = before @ lower k @ after) \<and>
   1 \<le> (now st - lastTrackTime st) div 60000"
  let ?m = "(now st - lastTrackTime st) div 60000"
  let ?st' = "(updateEducationalTime ?m st)\<lparr>lastTrackTime := now st\<rparr>"
  from a have "anyKeywordIn lower (lower h) A" by (simp add: anyKeywordIn_iff)
  with a have ret: "trackEducationalTime lower st = Returned ?st'"
    by (simp add: trackEducationalTime_def Let_def)
  have base: "lastTrackTime ?st' = now st" by simp
  have p: "pending ?st' = pending st @ [EducationalTimeUpdate ?m (storageGet (sync st))]"
    and s: "sync ?st' = sync st" and m: "settings ?st' = settings st"
    by (simp_all add: updateEducationalTime_def)
  have "\<exists>new newStats.
              storedSettings (sync (settle ?st')) = Some new \<and> stats new = Some newStats \<and>
              educationalMinutes newStats =
                Some ((case stats base of None \<Rightarrow> 0
                       | Some x \<Rightarrow> (case educationalMinutes x of None \<Rightarrow> 0 | Some k \<Rightarrow> k)) + ?m)"
    if w: "\<not> getFails (sync st) \<and> \<not> setFails (sync st) \<and>
         base = (case storedSettings (sync st) of Some v \<Rightarrow> v
                 | None \<Rightarrow> settings (settle st))"
  proof -
    have "storedSettings (sync (settle ?st')) =
        Some (addMinutes ?m
          (case storedSettings (sync st) of Some v \<Rightarrow> v | None \<Rightarrow> settings (settle st)))"
      using settle_last [where st' = "?st'" and st = st
          and t = "EducationalTimeUpdate ?m (storageGet (sync st))" and n = ?m
          and f = "addMinutes ?m"] p w s m
      by simp
    with w have "storedSettings (sync (settle ?st')) = Some (addMinutes ?m base)"
      by simp
    then show ?thesis using addMinutes_fields [of ?m base] by auto
  qed
  with ret base p show "\<exists>st'. trackEducationalTime lower st = Returned st' \<and>
        lastTrackTime st' = now st \<and>
        pending st' =
          pending st @ [EducationalTimeUpdate ?m (storageGet (sync st))] \<and>
        (\<not> getFails (sync st) \<and> \<not> setFails (sync st) \<and>
         base = (case storedSettings (sync st) of Some v \<Rightarrow> v
                 | None \<Rightarrow> settings (settle st)) \<longrightarrow>
           (\<exists>new newStats.
              storedSettings (sync (settle st')) = Some new \<and> stats new = Some newStats \<and>
              educationalMinutes newStats =
                Some ((case stats base of None \<Rightarrow> 0
                       | Some x \<Rightarrow> (case educationalMinutes x of None \<Rightarrow> 0 | Some k \<Rightarrow> k)) +
                  ?m)))"
    by blast
qed

theorem trackEducationalTime_whole_minutes_witness:
  "educationalMinutes sampleStats = Some 5 \<and>
   (\<exists>st'. trackEducationalTime asciiLowerCase watchState = Returned st' \<and>
      lastTrackTime st' = 91000 \<and>
      pending st' = [EducationalTimeUpdate 1 (storageGet (sync watchState))] \<and>
      (\<exists>new newStats. storedSettings (sync (settle st')) = Some new \<and> stats new = Some newStats \<and>
         educationalMinutes newStats = Some 6))"
proof -
  have hyp: "includesStr (pathname (doc watchState)) (str ''/watch'') \<and>
     watchHeading (doc watchState) = Some (str ''Learn React in 30 Minutes'') \<and>
     allowedKeywords (settings watchState) = Some [str ''react''] \<and>
     (\<exists>k \<in> set [str ''react'']. \<exists>before after.
        asciiLowerCase (str ''Learn React in 30 Minutes'') = before @ asciiLowerCase k @ after) \<and>
     1 \<le> (now watchState - lastTrackTime watchState) div 60000"
    unfolding anyKeywordIn_iff [symmetric] by code_simp
  have works: "\<not> getFails (sync watchState) \<and> \<not> setFails (sync watchState) \<and>
      sampleSettings = (case storedSettings (sync watchState) of Some v \<Rightarrow> v
        | None \<Rightarrow> settings (settle watchState))"
    by (simp add: watchState_def sampleState_def)
  have five: "educationalMinutes sampleStats = Some 5" by (simp add: sampleStats_def)
  have n: "now watchState = 91000" "pending watchState = []" "lastTrackTime watchState = 1000"
    by (simp_all add: watchState_def sampleState_def)
  note r = trackEducationalTime_whole_minutes [where lower = asciiLowerCase and st = watchState
      and h = "str ''Learn React in 30 Minutes''" and A = "[str ''react'']"
      and base = sampleSettings, THEN mp, OF hyp]
  from r works obtain st' new newStats where
    "trackEducationalTime asciiLowerCase watchState = Returned st'"
    "lastTrackTime st' = now watchState"
    "pending st' = pending watchState @
       [EducationalTimeUpdate ((now watchState - lastTrackTime watchState) div 60000)
          (storageGet (sync watchState))]"
    "storedSettings (sync (settle st')) = Some new" "stats new = Some newStats"
    "educationalMinutes newStats =
       Some ((case stats sampleSettings of None \<Rightarrow> 0
              | Some x \<Rightarrow> (case educationalMinutes x of None \<Rightarrow> 0 | Some k \<Rightarrow> k)) +
         (now watchState - lastTrackTime watchState) div 60000)"
    by blast
  then have "trackEducationalTime asciiLowerCase watchState = Returned st' \<and>
      lastTrackTime st' = 91000 \<and>
      pending st' = [EducationalTimeUpdate 1 (storageGet (sync watchState))] \<and>
      storedSettings (sync (settle st')) = Some new \<and> stats new = Some newStats \<and>
      educationalMinutes newStats = Some 6"
    by (simp add: n sampleSettings_def sampleStats_def)
  with five show ?thesis by blast
qed

subsection \<open>Loading settings and missing fields\<close>

text \<open>
  C8, as the claim states it, fails: a stored object without a blocked list is loaded as
  it is, and classifying with it throws, where the default-merged object answers blocked.
\<close>

theorem missing_keyword_list_counterexample:
  "storedSettings (sync missingListState) = Some storedWithoutBlocked \<and>
   blockedKeywords storedWithoutBlocked = None \<and>
   settings (stateOf (loadSettings missingListState)) = storedWithoutBlocked \<and>
   classifyContent asciiLowerCase (settings (stateOf (loadSettings missingListState)))
     (str ''Epic Prank'') = Inl TypeError \<and>
   classifyContent asciiLowerCase (mergeDefaults storedWithoutBlocked) (str ''Epic Prank'') =
     Inr Blocked"
  by code_simp

text \<open>
  C8, amended. \<open>loadSettings\<close> always returns: with the stored object when there is one
  and the store can be read, with the baseline settings otherwise. With a working store, a
  stored object whose stats or whose counter is missing comes out of the two statistics
  updates, once they are through, with the counter equal to the amount added, as if it had
  been zero.
\<close>

theorem loadSettings_never_throws:
  "loadSettings st =
     Returned (st\<lparr>settings :=
       (if getFails (sync st) then getDefaultSettings
        else (case storedSettings (sync st) of None \<Rightarrow> getDefaultSettings | Some v \<Rightarrow> v))\<rparr>) \<and>
   (\<not> getFails (sync st) \<and> \<not> setFails (sync st) \<and> storedSettings (sync st) = Some v \<and>
    (stats v = None \<or> (\<exists>x. stats v = Some x \<and> blockedCount x = None)) \<longrightarrow>
      (\<exists>new newStats.
         storedSettings (sync (settle (updateBlockedCount c st))) = Some new \<and>
         stats new = Some newStats \<and> blockedCount newStats = Some c)) \<and>
   (\<not> getFails (sync st) \<and> \<not> setFails (sync st) \<and> storedSettings (sync st) = Some v \<and>
    (stats v = None \<or> (\<exists>x. stats v = Some x \<and> educationalMinutes x = None)) \<longrightarrow>
      (\<exists>new newStats.
         storedSettings (sync (settle (updateEducationalTime m st))) = Some new \<and>
         stats new = Some newStats \<and> educationalMinutes newStats = Some m))"
proof (intro conjI impI)
  show "loadSettings st =
     Returned (st\<lparr>settings :=
       (if getFails (sync st) then getDefaultSettings
        else (case storedSettings (sync st) of None \<Rightarrow> getDefaultSettings | Some v \<Rightarrow> v))\<rparr>)"
    by (simp add: loadSettings_def loadSettingsTry_def storageGet_def)
next
  assume a: "\<not> getFails (sync st) \<and> \<not> setFails (sync st) \<and> storedSettings (sync st) = Some v \<and>
    (stats v = None \<or> (\<exists>x. stats v = Some x \<and> blockedCount x = None))"
  then have "storedSettings (sync (settle (updateBlockedCount c st))) = Some (addBlocked c v)"
    using settle_last_stored [where st = "updateBlockedCount c st" and ts = "pending st"
        and t = "BlockedCountUpdate c (Inr (Some v))" and n = c and v = v and f = "addBlocked c"]
    by (simp add: updateBlockedCount_def storageGet_def)
  moreover from a have "\<exists>newStats. stats (addBlocked c v) = Some newStats \<and> blockedCount newStats = Some c"
    using addBlocked_fields(1) [of c v] by auto
  ultimately show "\<exists>new newStats.
         storedSettings (sync (settle (updateBlockedCount c st))) = Some new \<and>
         stats new = Some newStats \<and> blockedCount newStats = Some c"
    by blast
next
  assume a: "\<not> getFails (sync st) \<and> \<not> setFails (sync st) \<and> storedSettings (sync st) = Some v \<and>
    (stats v = None \<or> (\<exists>x. stats v = Some x \<and> educationalMinutes x = None))"
  then have "storedSettings (sync (settle (updateEducationalTime m st))) = Some (addMinutes m v)"
    using settle_last_stored [where st = "updateEducationalTime m st" and ts = "pending st"
        and t = "EducationalTimeUpdate m (Inr (Some v))" and n = m and v = v and f = "addMinutes m"]
    by (simp add: updateEducationalTime_def storageGet_def)
  moreover from a have "\<exists>newStats. stats (addMinutes m v) = Some newStats \<and> educationalMinutes newStats = Some m"
    using addMinutes_fields(1) [of m v] by auto
  ultimately show "\<exists>new newStats.
         storedSettings (sync (settle (updateEducationalTime m st))) = Some new \<and>
         stats new = Some newStats \<and> educationalMinutes newStats = Some m"
    by blast
qed

theorem loadSettings_never_throws_witness:
  "loadSettings failingState = Returned (failingState\<lparr>settings := getDefaultSettings\<rparr>) \<and>
   loadSettings missingListState = Returned (missingListState\<lparr>settings := storedWithoutBlocked\<rparr>) \<and>
   (\<exists>new newStats.
      storedSettings (sync (settle (updateBlockedCount 3 missingListState))) = Some new \<and>
      stats new = Some newStats \<and> blockedCount newStats = Some 3) \<and>
   (\<exists>new newStats.
      storedSettings (sync (settle (updateEducationalTime 2 missingListState))) = Some new \<and>
      stats new = Some newStats \<and> educationalMinutes newStats = Some 2)"
proof -
  have hyp: "\<not> getFails (sync missingListState) \<and> \<not> setFails (sync missingListState) \<and>
      storedSettings (sync missingListState) = Some storedWithoutBlocked"
    by (simp add: missingListState_def)
  have nostats: "stats storedWithoutBlocked = None"
    by (simp add: storedWithoutBlocked_def)
  have fails: "getFails (sync failingState)"
    by (simp add: failingState_def)
  note f = loadSettings_never_throws [where st = failingState, THEN conjunct1]
  note t = loadSettings_never_throws [where st = missingListState and v = storedWithoutBlocked
      and c = 3 and m = 2]
  from f fails have a: "loadSettings failingState = Returned (failingState\<lparr>settings := getDefaultSettings\<rparr>)"
    by simp
  from t hyp have b: "loadSettings missingListState = Returned (missingListState\<lparr>settings := storedWithoutBlocked\<rparr>)"
    by simp
  from t hyp nostats have c: "\<exists>new newStats.
      storedSettings (sync (settle (updateBlockedCount 3 missingListState))) = Some new \<and>
      stats new = Some newStats \<and> blockedCount newStats = Some 3"
    by blast
  from t hyp nostats have d: "\<exists>new newStats.
      storedSettings (sync (settle (updateEducationalTime 2 missingListState))) = Some new \<and>
      stats new = Some newStats \<and> educationalMinutes newStats = Some 2"
    by blast
  from a b c d show ?thesis by blast
qed

subsection \<open>Disabling and enabling again\<close>

lemma map_firstMatching_absorb:
  "(\<And>e. g (f e) = g e) \<Longrightarrow> map g (firstMatching sel f xs) = map g xs"
  by (induction xs) simp_all

lemma map_firstMatching_commute:
  "(\<And>e. g (f e) = f (g e)) \<Longrightarrow> (\<And>e. sel (g e) = sel e) \<Longrightarrow>
     map g (firstMatching sel f xs) = firstMatching sel f (map g xs)"
  by (induction xs) simp_all

lemma filterVideo_present:
  "blockedKeywords s \<noteq> None \<Longrightarrow> allowedKeywords s \<noteq> None \<Longrightarrow> \<exists>k. snd (filterVideo lower s el) = Inr k"
  by (auto simp: filterVideo_def classifyContent_def Let_def split: option.split classification.split)

lemma forEachVideo_present:
  "blockedKeywords s \<noteq> None \<Longrightarrow> allowedKeywords s \<noteq> None \<Longrightarrow>
     \<exists>c. forEachVideo lower s es n =
       (map (\<lambda>el. if matchesVideoRenderer el then fst (filterVideo lower s el) else el) es, Inr c)"
proof (induction es arbitrary: n)
  case Nil
  then show ?case by simp
next
  case (Cons el es)
  show ?case
  proof (cases "matchesVideoRenderer el")
    case False
    with Cons.IH[OF Cons.prems, of n] show ?thesis by auto
  next
    case True
    obtain el1 k where fv: "filterVideo lower s el = (el1, Inr k)"
      using filterVideo_present[OF Cons.prems, of lower el] by (cases "filterVideo lower s el") auto
    obtain c where rec: "forEachVideo lower s es (n + k) =
       (map (\<lambda>el. if matchesVideoRenderer el then fst (filterVideo lower s el) else el) es, Inr c)"
      using Cons.IH[OF Cons.prems, of "n + k"] by blast
    from True fv rec show ?thesis by simp
  qed
qed

lemma filterVideo_hide_commute:
  "fst (filterVideo lower s (addFocusHidden el)) = addFocusHidden (fst (filterVideo lower s el))"
  by (simp add: filterVideo_def addFocusHidden_def hideVideo_def markAsEducational_def Let_def
      split: option.split sum.split classification.split)

lemma scanStep_hide_commute:
  "(let el2 = (if matchesShortsSection (addFocusHidden el) then addFocusHidden (addFocusHidden el)
               else addFocusHidden el)
    in if matchesVideoRenderer el2 then fst (filterVideo lower s el2) else el2) =
   addFocusHidden
    (let el2 = (if matchesShortsSection el then addFocusHidden el else el)
     in if matchesVideoRenderer el2 then fst (filterVideo lower s el2) else el2)"
  by (simp add: Let_def filterVideo_hide_commute)
     (simp add: addFocusHidden_def)

lemma settings_updateBlockedCount: "settings (updateBlockedCount c st) = settings st"
  by (simp add: updateBlockedCount_def)

lemma settings_updateEducationalTime: "settings (updateEducationalTime m st) = settings st"
  by (simp add: updateEducationalTime_def)

lemma hideShorts_normal:
  "map (\<lambda>el. if matchesVideoRenderer el then fst (filterVideo lower s el) else el)
       (elements (doc (hideShorts st))) =
     firstMatching matchesShortsTab addFocusHidden (map (scanElement lower s) (elements (doc st)))"
proof -
  let ?V = "\<lambda>el. if matchesVideoRenderer el then fst (filterVideo lower s el) else el"
  let ?S1 = "\<lambda>el. if matchesShorts el then addFocusHidden el else el"
  let ?S2 = "\<lambda>el. if matchesShortsSection el then addFocusHidden el else el"
  let ?g = "\<lambda>el. ?V (?S2 el)"
  have comm: "?g (addFocusHidden e) = addFocusHidden (?g e)" for e
    by (simp add: filterVideo_hide_commute) (simp add: addFocusHidden_def)
  have tab: "matchesShortsTab (?g e) = matchesShortsTab e" for e
    using grows_filterVideo[of "addFocusHidden e" lower s] grows_filterVideo[of e lower s]
    by (simp add: grows_def addFocusHidden_def)
  have "elements (doc (hideShorts st)) =
      map ?S2 (firstMatching matchesShortsTab addFocusHidden (map ?S1 (elements (doc st))))"
    by (simp add: hideShorts_def Let_def elements_setElements forEachMatching_def)
  then have "map ?V (elements (doc (hideShorts st))) =
      map ?g (firstMatching matchesShortsTab addFocusHidden (map ?S1 (elements (doc st))))"
    by simp
  also have "\<dots> = firstMatching matchesShortsTab addFocusHidden (map ?g (map ?S1 (elements (doc st))))"
    by (rule map_firstMatching_commute) (rule comm, rule tab)
  also have "map ?g (map ?S1 (elements (doc st))) = map (scanElement lower s) (elements (doc st))"
    by (simp add: scanElement_def Let_def)
  finally show ?thesis .
qed

lemma doc_hideShorts: "(doc (hideShorts st))\<lparr>elements := es\<rparr> = (doc st)\<lparr>elements := es\<rparr>"
  by (simp add: hideShorts_def Let_def setElements_def)

lemma trackEducationalTime_present:
  "allowedKeywords (settings st) \<noteq> None \<Longrightarrow> \<exists>st'. trackEducationalTime lower st = Returned st'"
  by (auto simp: trackEducationalTime_def Let_def split: option.split)

lemma scanAndFilter_present:
  assumes en: "focusModeEnabled (settings st)"
    and b: "blockedKeywords (settings st) \<noteq> None" and a: "allowedKeywords (settings st) \<noteq> None"
  shows "\<exists>st'. scanAndFilter lower st = Returned st' \<and>
           doc st' = (doc st)\<lparr>elements :=
             firstMatching matchesShortsTab addFocusHidden
               (map (scanElement lower (settings st)) (elements (doc st)))\<rparr> \<and>
           focusModeEnabled (settings st')"
proof -
  let ?s = "settings st"
  let ?es = "firstMatching matchesShortsTab addFocusHidden (map (scanElement lower ?s) (elements (doc st)))"
  obtain c where loop: "forEachVideo lower ?s (elements (doc (hideShorts st))) 0 = (?es, Inr c)"
    using forEachVideo_present[OF b a, of lower "elements (doc (hideShorts st))" 0]
    by (auto simp: hideShorts_normal)
  define st1 where "st1 = (if 0 < c then updateBlockedCount c (setElements ?es (hideShorts st))
      else setElements ?es (hideShorts st))"
  have fv: "filterVideos lower (hideShorts st) = Returned st1"
    using loop by (simp add: filterVideos_def settings_hideShorts st1_def)
  have d1: "doc st1 = (doc st)\<lparr>elements := ?es\<rparr>"
    by (simp add: st1_def doc_updateBlockedCount setElements_def doc_hideShorts)
  have e1: "focusModeEnabled (settings st1)" and a1: "allowedKeywords (settings st1) \<noteq> None"
    using en a
    by (simp_all add: st1_def settings_updateBlockedCount setElements_def settings_hideShorts)
  obtain st2 where tr: "trackEducationalTime lower st1 = Returned st2"
    using trackEducationalTime_present[OF a1] by blast
  have d2: "doc st2 = doc st1"
    using doc_trackEducationalTime[of lower st1] tr by simp
  have e2: "focusModeEnabled (settings st2)"
    using tr e1
    by (auto simp: trackEducationalTime_def Let_def settings_updateEducationalTime
        split: option.splits if_splits)
  have "scanAndFilter lower st = Returned st2"
    using en fv tr by (simp add: scanAndFilter_def)
  with d1 d2 e2 show ?thesis by simp
qed

lemma resetElement_unmarked: "unmarked el \<Longrightarrow> resetElement el = el"
  by (cases el) (simp add: unmarked_def resetElement_def)

lemma filterVideo_again:
  assumes "unmarked el"
  shows "fst (filterVideo lower s (resetElement (fst (filterVideo lower s el)))) = fst (filterVideo lower s el)"
proof -
  have u: "focusProcessed el = None" "eduBadges el = 0" "resetElement el = el"
    using assms by (simp_all add: unmarked_def resetElement_unmarked)
  let ?m = "el\<lparr>focusProcessed := Some (str ''true'')\<rparr>"
  have rm: "resetElement ?m = el"
    using u(3) by (simp add: resetElement_def)
  have plain: "fst (filterVideo lower s el) = ?m \<or> fst (filterVideo lower s el) = hideVideo ?m \<Longrightarrow> ?thesis"
  proof -
    assume "fst (filterVideo lower s el) = ?m \<or> fst (filterVideo lower s el) = hideVideo ?m"
    then have "resetElement (fst (filterVideo lower s el)) = el"
      using rm by (auto simp: hideVideo_def resetElement_def)
    then show ?thesis by simp
  qed
  show ?thesis
  proof (cases "videoTitle el")
    case None
    with u have "fst (filterVideo lower s el) = ?m" by (simp add: filterVideo_def)
    then show ?thesis using plain by simp
  next
    case (Some t)
    let ?txt = "lower t @ str '' '' @
        (case channelName el of Some c \<Rightarrow> lower c | None \<Rightarrow> [])"
    show ?thesis
    proof (cases "classifyContent lower s ?txt = Inr Educational \<and> thumbnail el \<noteq> None")
      case False
      with u Some have "fst (filterVideo lower s el) = ?m \<or> fst (filterVideo lower s el) = hideVideo ?m"
        by (auto simp: filterVideo_def Let_def markAsEducational_def
            split: sum.split classification.split option.split)
      then show ?thesis by (rule plain)
    next
      case True
      let ?b = "el\<lparr>focusProcessed := Some (str ''true''), thumbnail := Some (str ''relative''), eduBadges := 1\<rparr>"
      from True u Some have 1: "fst (filterVideo lower s el) = ?b"
        by (auto simp: filterVideo_def Let_def markAsEducational_def)
      have "resetElement ?b = el\<lparr>thumbnail := Some (str ''relative'')\<rparr>"
        using u(3) by (cases el) (simp add: resetElement_def)
      moreover from True u Some
      have "fst (filterVideo lower s (el\<lparr>thumbnail := Some (str ''relative'')\<rparr>)) = ?b"
        by (simp add: filterVideo_def Let_def markAsEducational_def)
      ultimately show ?thesis using 1 by simp
    qed
  qed
qed

lemma matches_addFocusHidden:
  "matchesVideoRenderer (addFocusHidden el) = matchesVideoRenderer el"
  "matchesShorts (addFocusHidden el) = matchesShorts el"
  "matchesShortsSection (addFocusHidden el) = matchesShortsSection el"
  "addFocusHidden (addFocusHidden el) = addFocusHidden el"
  by (simp_all add: addFocusHidden_def)

lemma matches_resetElement:
  "matchesVideoRenderer (resetElement el) = matchesVideoRenderer el"
  "matchesShorts (resetElement el) = matchesShorts el"
  "matchesShortsSection (resetElement el) = matchesShortsSection el"
  "resetElement (addFocusHidden el) = resetElement el"
  by (simp_all add: resetElement_def addFocusHidden_def)

lemma scanElement_alt:
  "scanElement lower s el =
     (if matchesShorts el \<or> matchesShortsSection el
      then addFocusHidden (if matchesVideoRenderer el then fst (filterVideo lower s el) else el)
      else (if matchesVideoRenderer el then fst (filterVideo lower s el) else el))"
  by (simp add: scanElement_def Let_def matches_addFocusHidden filterVideo_hide_commute)

lemma matches_filterVideo:
  "matchesShorts (fst (filterVideo lower s el)) = matchesShorts el"
  "matchesShortsSection (fst (filterVideo lower s el)) = matchesShortsSection el"
  using grows_filterVideo[of el lower s] by (simp_all add: grows_def)

lemma scanElement_again:
  assumes "unmarked el"
  shows "scanElement lower s (resetElement (scanElement lower s el)) = scanElement lower s el"
proof (cases "matchesVideoRenderer el")
  case False
  then have "resetElement (scanElement lower s el) = el"
    using assms
    by (simp add: scanElement_alt matches_resetElement resetElement_unmarked)
  then show ?thesis by simp
next
  case True
  then have r: "resetElement (scanElement lower s el) = resetElement (fst (filterVideo lower s el))"
    by (simp add: scanElement_alt matches_resetElement)
  have v: "matchesVideoRenderer (resetElement (fst (filterVideo lower s el)))"
    using True by (simp add: matches_resetElement filterVideo_matches)
  show ?thesis
    unfolding r
    using True v filterVideo_again[OF assms, of lower s]
    by (simp add: scanElement_alt matches_resetElement matches_filterVideo)
qed

lemma grows_scanElement: "grows el (scanElement lower s el)"
proof -
  let ?a = "if matchesShorts el then addFocusHidden el else el"
  let ?b = "if matchesShortsSection ?a then addFocusHidden ?a else ?a"
  have 1: "grows el ?a" by (simp add: grows_refl grows_hide)
  have 2: "grows ?a ?b" by (simp add: grows_refl grows_hide)
  have 3: "grows ?b (scanElement lower s el)"
    by (simp add: scanElement_def Let_def grows_refl grows_filterVideo)
  from 1 2 3 show ?thesis by (blast intro: grows_trans)
qed

lemma homeBrowse_grows:
  "list_all2 grows xs ys \<Longrightarrow> list_ex matchesHomeBrowse ys = list_ex matchesHomeBrowse xs"
  by (induction rule: list_all2_induct) (simp_all add: grows_def)

lemma scanned_grows:
  "list_all2 grows es (firstMatching matchesShortsTab addFocusHidden (map (scanElement lower s) es))"
proof -
  have "list_all2 grows es (map (scanElement lower s) es)"
    by (simp add: list_all2_conv_all_nth grows_scanElement)
  moreover have "list_all2 grows (map (scanElement lower s) es)
      (firstMatching matchesShortsTab addFocusHidden (map (scanElement lower s) es))"
    by (rule firstMatching_all2) (simp_all add: grows_refl grows_hide)
  ultimately show ?thesis by (rule list_all2_grows_trans)
qed

lemma scanAndCheck_present:
  assumes en: "focusModeEnabled (settings st)"
    and b: "blockedKeywords (settings st) \<noteq> None" and a: "allowedKeywords (settings st) \<noteq> None"
  shows "\<exists>st'. scanAndCheck lower st = Returned st' \<and> doc st' = scannedDoc lower (settings st) (doc st)"
proof -
  let ?es = "firstMatching matchesShortsTab addFocusHidden
               (map (scanElement lower (settings st)) (elements (doc st)))"
  obtain st1 where r: "scanAndFilter lower st = Returned st1"
    and d: "doc st1 = (doc st)\<lparr>elements := ?es\<rparr>" and e: "focusModeEnabled (settings st1)"
    using scanAndFilter_present[OF en b a] by blast
  have home: "isHome (doc st1) = isHome (doc st)"
    using homeBrowse_grows[OF scanned_grows[of "elements (doc st)" lower "settings st"]]
    by (simp add: isHome_def d)
  have "doc (checkForHomepage st1) = scannedDoc lower (settings st) (doc st)"
  proof (cases "isHome (doc st)")
    case True
    with home e have "checkForHomepage st1 = showFocusDashboard st1"
      by (simp add: checkForHomepage_def)
    with True show ?thesis
      by (simp add: scannedDoc_def Let_def showFocusDashboard_def d)
  next
    case False
    with home e have "checkForHomepage st1 = hideFocusDashboard st1"
      by (simp add: checkForHomepage_def)
    with False e show ?thesis
      by (simp add: scannedDoc_def Let_def hideFocusDashboard_def hiddenDashboard_def d
          split: option.split)
  qed
  with r show ?thesis by (simp add: scanAndCheck_def)
qed

lemma doc_removeAllFilters: "doc (removeAllFilters st) = resetDoc (doc st)"
proof -
  let ?es = "map resetElement (elements (doc st))"
  have "removeAllFilters st = hideFocusDashboard (setElements ?es st)"
    unfolding removeAllFilters_def Let_def strip_processed_eq unhide_eq
    by (simp add: resetElement_def[abs_def] comp_def)
  moreover have "firstMatching matchesHomeFeed (\<lambda>e. e\<lparr>focusHidden := False\<rparr>) ?es = ?es"
    by (rule firstMatching_id) (auto simp: resetElement_def)
  ultimately show ?thesis
    by (simp add: hideFocusDashboard_def Let_def setElements_def resetDoc_def hiddenDashboard_def
        split: option.split)
qed

lemma isHome_resetDoc: "isHome (resetDoc d) = isHome d"
  by (simp add: isHome_def resetDoc_def list_ex_iff resetElement_def)

lemma isHome_scannedDoc: "isHome (scannedDoc lower s d) = isHome d"
proof -
  let ?es = "firstMatching matchesShortsTab addFocusHidden (map (scanElement lower s) (elements d))"
  have 1: "list_ex matchesHomeBrowse ?es = list_ex matchesHomeBrowse (elements d)"
    by (rule homeBrowse_grows) (rule scanned_grows)
  have "list_all2 grows ?es (firstMatching matchesHomeFeed addFocusHidden ?es)"
    by (rule firstMatching_all2) (simp_all add: grows_refl grows_hide)
  then have 2: "list_ex matchesHomeBrowse (firstMatching matchesHomeFeed addFocusHidden ?es) =
      list_ex matchesHomeBrowse ?es"
    by (rule homeBrowse_grows)
  show ?thesis using 1 2 by (simp add: isHome_def scannedDoc_def Let_def)
qed

lemma scannedDoc_roundtrip:
  assumes "\<forall>el \<in> set (elements d). unmarked el"
  shows "scannedDoc lower s (resetDoc (scannedDoc lower s d)) = scannedDoc lower s d"
proof -
  let ?W = "scanElement lower s"
  let ?T = "firstMatching matchesShortsTab addFocusHidden"
  let ?H = "firstMatching matchesHomeFeed addFocusHidden"
  have absorb: "?W (resetElement (addFocusHidden e)) = ?W (resetElement e)" for e
    by (simp add: resetElement_def addFocusHidden_def)
  have again: "map (\<lambda>e. ?W (resetElement e)) (map ?W (elements d)) = map ?W (elements d)"
    using assms by (simp add: scanElement_again)
  have t: "map (\<lambda>e. ?W (resetElement e)) (?T (map ?W (elements d))) = map ?W (elements d)"
    using map_firstMatching_absorb[of "\<lambda>e. ?W (resetElement e)" addFocusHidden matchesShortsTab
        "map ?W (elements d)", OF absorb] again by simp
  have h: "map (\<lambda>e. ?W (resetElement e)) (?H (?T (map ?W (elements d)))) = map ?W (elements d)"
    using map_firstMatching_absorb[of "\<lambda>e. ?W (resetElement e)" addFocusHidden matchesHomeFeed
        "?T (map ?W (elements d))", OF absorb] t by simp
  have home: "isHome (resetDoc (scannedDoc lower s d)) = isHome d"
    by (simp add: isHome_resetDoc isHome_scannedDoc)
  show ?thesis
  proof (cases "isHome d")
    case True
    have "elements (resetDoc (scannedDoc lower s d)) = map resetElement (?H (?T (map ?W (elements d))))"
      using True by (simp add: resetDoc_def scannedDoc_def Let_def)
    then have "map ?W (elements (resetDoc (scannedDoc lower s d))) = map ?W (elements d)"
      using h by (simp add: comp_def)
    then show ?thesis using True home
      by (simp add: scannedDoc_def[of lower s "resetDoc (scannedDoc lower s d)"] Let_def)
         (simp add: scannedDoc_def resetDoc_def Let_def)
  next
    case False
    have "elements (resetDoc (scannedDoc lower s d)) = map resetElement (?T (map ?W (elements d)))"
      using False by (simp add: resetDoc_def scannedDoc_def Let_def)
    then have "map ?W (elements (resetDoc (scannedDoc lower s d))) = map ?W (elements d)"
      using t by (simp add: comp_def)
    then show ?thesis using False home
      by (simp add: scannedDoc_def[of lower s "resetDoc (scannedDoc lower s d)"] Let_def)
         (simp add: scannedDoc_def resetDoc_def Let_def hiddenDashboard_def split: option.split)
  qed
qed

lemma unmarked_resetDoc: "\<forall>el \<in> set (elements (resetDoc d)). unmarked el"
  by (simp add: resetDoc_def resetElement_def unmarked_def)

lemma scannedDoc_resetDoc:
  "scannedDoc lower s (resetDoc d) =
     scannedDoc lower s (d\<lparr>elements := map resetElement (elements d)\<rparr>)"
proof -
  have "isHome (d\<lparr>elements := map resetElement (elements d)\<rparr>) = isHome (resetDoc d)"
    by (simp add: isHome_def resetDoc_def)
  then show ?thesis
    by (simp add: scannedDoc_def Let_def resetDoc_def hiddenDashboard_def split: option.split)
qed

text \<open>
  C3, as the claim states it, fails. On the sample page the fourth card is scanned before
  its title is rendered and is marked; the title \<open>Prank Wars\<close> arrives, and the polls leave
  the marked card alone: before the disable it is on screen. After the disable and the
  enabling update it is hidden.
\<close>

theorem roundtrip_stale_marker_counterexample:
  "focusModeEnabled (settings lateTitleState) \<and>
   videoTitle (elements (doc lateTitleState) ! 3) = Some (str ''Prank Wars'') \<and>
   focusProcessed (elements (doc lateTitleState) ! 3) = Some (str ''true'') \<and>
   eduBadges (elements (doc lateTitleState) ! 3) = 0 \<and>
   \<not> focusHidden (elements (doc lateTitleState) ! 3) \<and>
   focusHidden
     (elements (doc (stateOf (handleMessage asciiLowerCase (SETTINGS_UPDATED sampleSettings)
        (stateOf (handleMessage asciiLowerCase disableUpdate lateTitleState))))) ! 3)"
  by code_simp

text \<open>
  C3, amended. \<open>removeAllFilters\<close> leaves every element unhidden, without badge and without
  marker, and a settings update that turns focus mode off runs exactly that reset. With
  settings that enable focus mode and carry both keyword lists, from any state: after the
  disable and the enabling update the document is the one the enabling update produces
  from the same page with every mark cleared, so every item is hidden, badged or plain as
  its text is classified now and no mark of before the disable has a part in it. When the
  state before the disable was itself produced by the enabling update from the page without
  marks, this is the very document of before the disable.
\<close>

theorem disable_enable_roundtrip:
  "(\<forall>el \<in> set (elements (doc (removeAllFilters st))).
      \<not> focusHidden el \<and> eduBadges el = 0 \<and> focusProcessed el = None) \<and>
   (\<not> focusModeEnabled off \<longrightarrow>
      handleMessage lower (SETTINGS_UPDATED off) st =
        Returned (removeAllFilters (st\<lparr>settings := off\<rparr>))) \<and>
   (focusModeEnabled s \<and> allowedKeywords s \<noteq> None \<and> blockedKeywords s \<noteq> None \<and>
    \<not> focusModeEnabled off \<longrightarrow>
      (\<exists>st2 st3 fresh.
         handleMessage lower (SETTINGS_UPDATED off) st = Returned st2 \<and>
         handleMessage lower (SETTINGS_UPDATED s) st2 = Returned st3 \<and>
         handleMessage lower (SETTINGS_UPDATED s)
           (setElements
              (map (\<lambda>el. el\<lparr>focusHidden := False, eduBadges := 0, focusProcessed := None\<rparr>)
                 (elements (doc st))) st) = Returned fresh \<and>
         doc st3 = doc fresh)) \<and>
   (focusModeEnabled s \<and> allowedKeywords s \<noteq> None \<and> blockedKeywords s \<noteq> None \<and>
    \<not> focusModeEnabled off \<and>
    (\<forall>el \<in> set (elements (doc st)).
       \<not> focusHidden el \<and> eduBadges el = 0 \<and> focusProcessed el = None) \<longrightarrow>
      (\<exists>st1 st2 st3.
         handleMessage lower (SETTINGS_UPDATED s) st = Returned st1 \<and>
         handleMessage lower (SETTINGS_UPDATED off) st1 = Returned st2 \<and>
         handleMessage lower (SETTINGS_UPDATED s) st2 = Returned st3 \<and>
         (\<forall>el \<in> set (elements (doc st2)).
            \<not> focusHidden el \<and> eduBadges el = 0 \<and> focusProcessed el = None) \<and>
         doc st3 = doc st1))"
proof (intro conjI impI)
  show "\<forall>el \<in> set (elements (doc (removeAllFilters st))).
      \<not> focusHidden el \<and> eduBadges el = 0 \<and> focusProcessed el = None"
    using unmarked_resetDoc[of "doc st"] by (simp add: doc_removeAllFilters unmarked_def)
next
  assume "\<not> focusModeEnabled off"
  then show "handleMessage lower (SETTINGS_UPDATED off) st =
      Returned (removeAllFilters (st\<lparr>settings := off\<rparr>))"
    by (simp add: handleMessage_def)
next
  assume h: "focusModeEnabled s \<and> allowedKeywords s \<noteq> None \<and> blockedKeywords s \<noteq> None \<and>
    \<not> focusModeEnabled off"
  have on: "\<exists>st'. handleMessage lower (SETTINGS_UPDATED s) x = Returned st' \<and>
      doc st' = scannedDoc lower s (doc x)" for x
    using h scanAndCheck_present[of "x\<lparr>settings := s\<rparr>" lower] by (simp add: handleMessage_def)
  let ?cleared = "setElements
      (map (\<lambda>el. el\<lparr>focusHidden := False, eduBadges := 0, focusProcessed := None\<rparr>)
         (elements (doc st))) st"
  define st2 where "st2 = removeAllFilters (st\<lparr>settings := off\<rparr>)"
  have 2: "handleMessage lower (SETTINGS_UPDATED off) st = Returned st2"
    using h by (simp add: handleMessage_def st2_def)
  have d2: "doc st2 = resetDoc (doc st)"
    by (simp add: st2_def doc_removeAllFilters)
  obtain st3 where 3: "handleMessage lower (SETTINGS_UPDATED s) st2 = Returned st3"
    and d3: "doc st3 = scannedDoc lower s (doc st2)"
    using on by blast
  obtain fresh where f: "handleMessage lower (SETTINGS_UPDATED s) ?cleared = Returned fresh"
    and df: "doc fresh = scannedDoc lower s (doc ?cleared)"
    using on by blast
  have "doc ?cleared = (doc st)\<lparr>elements := map resetElement (elements (doc st))\<rparr>"
    by (simp add: setElements_def resetElement_def[abs_def])
  then have "doc st3 = doc fresh"
    by (simp add: d3 d2 df scannedDoc_resetDoc)
  with 2 3 f show "\<exists>st2 st3 fresh.
         handleMessage lower (SETTINGS_UPDATED off) st = Returned st2 \<and>
         handleMessage lower (SETTINGS_UPDATED s) st2 = Returned st3 \<and>
         handleMessage lower (SETTINGS_UPDATED s) ?cleared = Returned fresh \<and>
         doc st3 = doc fresh"
    by blast
next
  assume h: "focusModeEnabled s \<and> allowedKeywords s \<noteq> None \<and> blockedKeywords s \<noteq> None \<and>
    \<not> focusModeEnabled off \<and>
    (\<forall>el \<in> set (elements (doc st)).
       \<not> focusHidden el \<and> eduBadges el = 0 \<and> focusProcessed el = None)"
  then have clean: "\<forall>el \<in> set (elements (doc st)). unmarked el"
    by (simp add: unmarked_def)
  have on: "\<exists>st'. handleMessage lower (SETTINGS_UPDATED s) x = Returned st' \<and>
      doc st' = scannedDoc lower s (doc x)" for x
    using h scanAndCheck_present[of "x\<lparr>settings := s\<rparr>" lower] by (simp add: handleMessage_def)
  obtain st1 where 1: "handleMessage lower (SETTINGS_UPDATED s) st = Returned st1"
    and d1: "doc st1 = scannedDoc lower s (doc st)"
    using on by blast
  define st2 where "st2 = removeAllFilters (st1\<lparr>settings := off\<rparr>)"
  have 2: "handleMessage lower (SETTINGS_UPDATED off) st1 = Returned st2"
    using h by (simp add: handleMessage_def st2_def)
  have d2: "doc st2 = resetDoc (scannedDoc lower s (doc st))"
    by (simp add: st2_def doc_removeAllFilters d1)
  obtain st3 where 3: "handleMessage lower (SETTINGS_UPDATED s) st2 = Returned st3"
    and d3: "doc st3 = scannedDoc lower s (doc st2)"
    using on by blast
  have "doc st3 = doc st1"
    using scannedDoc_roundtrip[OF clean, of lower s] by (simp add: d1 d2 d3)
  moreover have "\<forall>el \<in> set (elements (doc st2)).
            \<not> focusHidden el \<and> eduBadges el = 0 \<and> focusProcessed el = None"
    using unmarked_resetDoc[of "scannedDoc lower s (doc st)"] by (simp add: d2 unmarked_def)
  ultimately show "\<exists>st1 st2 st3.
         handleMessage lower (SETTINGS_UPDATED s) st = Returned st1 \<and>
         handleMessage lower (SETTINGS_UPDATED off) st1 = Returned st2 \<and>
         handleMessage lower (SETTINGS_UPDATED s) st2 = Returned st3 \<and>
         (\<forall>el \<in> set (elements (doc st2)).
            \<not> focusHidden el \<and> eduBadges el = 0 \<and> focusProcessed el = None) \<and>
         doc st3 = doc st1"
    using 1 2 3 by blast
qed

theorem disable_enable_roundtrip_witness:
  "focusHidden (elements (doc (stateOf (filterVideos asciiLowerCase sampleState))) ! 0) \<and>
   \<not> focusHidden
       (elements (doc (removeAllFilters (stateOf (filterVideos asciiLowerCase sampleState)))) ! 0) \<and>
   handleMessage asciiLowerCase disableUpdate sampleState =
     Returned (removeAllFilters
       (sampleState\<lparr>settings := sampleSettings\<lparr>focusModeEnabled := False\<rparr>\<rparr>)) \<and>
   (\<exists>st2 st3 fresh.
      handleMessage asciiLowerCase disableUpdate lateTitleState = Returned st2 \<and>
      handleMessage asciiLowerCase (SETTINGS_UPDATED sampleSettings) st2 = Returned st3 \<and>
      handleMessage asciiLowerCase (SETTINGS_UPDATED sampleSettings)
        (setElements
           (map (\<lambda>el. el\<lparr>focusHidden := False, eduBadges := 0, focusProcessed := None\<rparr>)
              (elements (doc lateTitleState))) lateTitleState) = Returned fresh \<and>
      doc st3 = doc fresh) \<and>
   (\<exists>st1 st2 st3.
      handleMessage asciiLowerCase (SETTINGS_UPDATED sampleSettings) sampleState = Returned st1 \<and>
      handleMessage asciiLowerCase disableUpdate st1 = Returned st2 \<and>
      handleMessage asciiLowerCase (SETTINGS_UPDATED sampleSettings) st2 = Returned st3 \<and>
      doc st3 = doc st1)"
proof -
  let ?off = "sampleSettings\<lparr>focusModeEnabled := False\<rparr>"
  have lists: "focusModeEnabled sampleSettings \<and> allowedKeywords sampleSettings \<noteq> None \<and>
      blockedKeywords sampleSettings \<noteq> None \<and> \<not> focusModeEnabled ?off"
    by (simp add: sampleSettings_def)
  have clean: "\<forall>el \<in> set (elements (doc sampleState)).
         \<not> focusHidden el \<and> eduBadges el = 0 \<and> focusProcessed el = None"
    by (simp add: sampleState_def samplePage_def videoCard_def plainElement_def)
  have hidden: "focusHidden (elements (doc (stateOf (filterVideos asciiLowerCase sampleState))) ! 0)"
    by code_simp
  have mem: "elements (doc (removeAllFilters (stateOf (filterVideos asciiLowerCase sampleState)))) ! 0 \<in>
      set (elements (doc (removeAllFilters (stateOf (filterVideos asciiLowerCase sampleState)))))"
    by (rule nth_mem) code_simp
  have off: "\<not> focusModeEnabled ?off"
    by simp
  note r = disable_enable_roundtrip [where lower = asciiLowerCase and s = sampleSettings
      and off = ?off]
  from r [where st = "stateOf (filterVideos asciiLowerCase sampleState)", THEN conjunct1] mem
  have a: "\<not> focusHidden
      (elements (doc (removeAllFilters (stateOf (filterVideos asciiLowerCase sampleState)))) ! 0)"
    by blast
  note b = r [where st = sampleState, THEN conjunct2, THEN conjunct1, THEN mp, OF off,
      folded disableUpdate_def]
  note c = r [where st = lateTitleState, THEN conjunct2, THEN conjunct2, THEN conjunct1, THEN mp,
      OF lists, folded disableUpdate_def]
  from r [where st = sampleState, THEN conjunct2, THEN conjunct2, THEN conjunct2, THEN mp]
    lists clean
  have d: "\<exists>st1 st2 st3.
      handleMessage asciiLowerCase (SETTINGS_UPDATED sampleSettings) sampleState = Returned st1 \<and>
      handleMessage asciiLowerCase disableUpdate st1 = Returned st2 \<and>
      handleMessage asciiLowerCase (SETTINGS_UPDATED sampleSettings) st2 = Returned st3 \<and>
      doc st3 = doc st1"
    unfolding disableUpdate_def by blast
  from hidden a b c d show ?thesis by (intro conjI)
qed

subsection \<open>Navigation\<close>

text \<open>
  C5, as the claim states it, fails in its "only": a settings update that turns focus mode
  off strips the marker of a marked element, and it is not a navigation event.
\<close>

theorem marker_reset_without_navigation_counterexample:
  "focusProcessed (elements (doc markedState) ! 0) = Some (str ''true'') \<and>
   focusProcessed (elements (doc (stateOf (handleEvent asciiLowerCase disableMessage markedState))) ! 0) = None \<and>
   disableMessage \<noteq> NavigateFinish"
  by code_simp

lemma firstMatching_nth_cases:
  "i < length xs \<Longrightarrow>
     firstMatching sel f xs ! i = xs ! i \<or> firstMatching sel f xs ! i = f (xs ! i)"
  using firstMatching_all2[of "\<lambda>a b. b = a \<or> b = f a" sel f xs]
  by (simp add: list_all2_conv_all_nth)

lemma enabled_filterVideos:
  "focusModeEnabled (settings (stateOf (filterVideos lower st))) = focusModeEnabled (settings st)"
  by (cases "forEachVideo lower (settings st) (elements (doc st)) 0")
     (simp add: filterVideos_def setElements_def settings_updateBlockedCount split: sum.split)

lemma enabled_trackEducationalTime:
  "focusModeEnabled (settings (stateOf (trackEducationalTime lower st))) = focusModeEnabled (settings st)"
  by (simp add: trackEducationalTime_def Let_def settings_updateEducationalTime
      split: option.split)

lemma enabled_scanAndFilter:
  "focusModeEnabled (settings st) \<Longrightarrow> focusModeEnabled (settings (stateOf (scanAndFilter lower st)))"
  using enabled_filterVideos[of lower "hideShorts st"]
  by (cases "filterVideos lower (hideShorts st)")
     (simp_all add: scanAndFilter_def enabled_trackEducationalTime settings_hideShorts)

lemma checkForHomepage_grows:
  "focusModeEnabled (settings st) \<Longrightarrow>
     list_all2 grows (elements (doc st)) (elements (doc (checkForHomepage st)))"
proof -
  assume en: "focusModeEnabled (settings st)"
  have same: "list_all2 grows (elements (doc st)) (elements (doc st))"
    by (simp add: list_all2_same grows_refl)
  have fm: "list_all2 grows (elements (doc st))
      (firstMatching matchesHomeFeed addFocusHidden (elements (doc st)))"
    by (rule firstMatching_all2) (simp_all add: grows_refl grows_hide)
  show ?thesis using en same fm
    by (simp add: checkForHomepage_def showFocusDashboard_def hideFocusDashboard_def Let_def
        split: option.split)
qed

lemma scanAndCheck_grows:
  assumes en: "focusModeEnabled (settings st)"
  shows "list_all2 grows (elements (doc st)) (elements (doc (stateOf (scanAndCheck lower st))))"
proof (cases "scanAndFilter lower st")
  case (Threw err st1)
  with scanAndFilter_grows[OF en, of lower] show ?thesis by (simp add: scanAndCheck_def)
next
  case (Returned st1)
  with enabled_scanAndFilter[OF en, of lower] have "focusModeEnabled (settings st1)" by simp
  then have "list_all2 grows (elements (doc st1)) (elements (doc (checkForHomepage st1)))"
    by (rule checkForHomepage_grows)
  moreover from Returned scanAndFilter_grows[OF en, of lower]
  have "list_all2 grows (elements (doc st)) (elements (doc st1))" by simp
  ultimately show ?thesis using Returned
    by (simp add: scanAndCheck_def) (rule list_all2_grows_trans)
qed

lemma enabled_handler_keeps_markers:
  assumes "ev \<noteq> NavigateFinish"
    and "(\<forall>s. ev \<noteq> RuntimeMessage (SETTINGS_UPDATED s)) \<longrightarrow> focusModeEnabled (settings st)"
    and "\<forall>s. ev = RuntimeMessage (SETTINGS_UPDATED s) \<longrightarrow> focusModeEnabled s"
  shows "list_all2 grows (elements (doc st)) (elements (doc (stateOf (handleEvent lower ev st))))"
proof (cases ev)
  case NavigateFinish
  with assms show ?thesis by simp
next
  case TimeoutScanAndCheck
  with assms scanAndCheck_grows[of st lower] show ?thesis by simp
next
  case IntervalTick
  with assms scanAndFilter_grows[of st lower] show ?thesis by (simp add: intervalTick_def)
next
  case ObserverScan
  with assms scanAndFilter_grows[of st lower] show ?thesis by simp
next
  case (RuntimeMessage msg)
  show ?thesis
  proof (cases msg)
    case (SETTINGS_UPDATED s)
    with RuntimeMessage assms have "focusModeEnabled s" by simp
    with scanAndCheck_grows[of "st\<lparr>settings := s\<rparr>" lower] RuntimeMessage SETTINGS_UPDATED
    show ?thesis by (simp add: handleMessage_def)
  next
    case OtherMessage
    with RuntimeMessage show ?thesis
      by (simp add: handleMessage_def list_all2_same grows_refl)
  qed
next
  case StorageReply
  then show ?thesis
    by (simp add: doc_storageReply list_all2_same grows_refl)
qed

lemma scannedDoc_nth:
  assumes "i < length (elements d)"
  shows "elements (scannedDoc lower s d) ! i = scanElement lower s (elements d ! i) \<or>
         elements (scannedDoc lower s d) ! i = addFocusHidden (scanElement lower s (elements d ! i))"
proof -
  let ?zs = "map (scanElement lower s) (elements d)"
  let ?ts = "firstMatching matchesShortsTab addFocusHidden ?zs"
  let ?hs = "firstMatching matchesHomeFeed addFocusHidden ?ts"
  have t: "?ts ! i = ?zs ! i \<or> ?ts ! i = addFocusHidden (?zs ! i)"
    by (rule firstMatching_nth_cases) (simp add: assms)
  have h: "?hs ! i = ?ts ! i \<or> ?hs ! i = addFocusHidden (?ts ! i)"
    by (rule firstMatching_nth_cases) (simp add: assms length_firstMatching)
  have z: "?zs ! i = scanElement lower s (elements d ! i)"
    using assms by simp
  have "elements (scannedDoc lower s d) = ?ts \<or> elements (scannedDoc lower s d) = ?hs"
    by (simp add: scannedDoc_def Let_def)
  with t h z show ?thesis
    by (auto simp: matches_addFocusHidden)
qed

lemma length_scannedDoc: "length (elements (scannedDoc lower s d)) = length (elements d)"
  by (simp add: scannedDoc_def Let_def length_firstMatching)

lemma filterVideo_fresh_blocked:
  "focusProcessed x = None \<Longrightarrow> videoTitle x = Some t \<Longrightarrow>
   classifyContent lower s
     (lower t @ str '' '' @ (case channelName x of Some c \<Rightarrow> lower c | None \<Rightarrow> [])) =
     Inr Blocked \<Longrightarrow>
   focusHidden (fst (filterVideo lower s x))"
  by (simp add: filterVideo_def Let_def hideVideo_def)

lemma filterVideo_fresh_educational:
  "focusProcessed x = None \<Longrightarrow> videoTitle x = Some t \<Longrightarrow> thumbnail x \<noteq> None \<Longrightarrow>
   classifyContent lower s
     (lower t @ str '' '' @ (case channelName x of Some c \<Rightarrow> lower c | None \<Rightarrow> [])) =
     Inr Educational \<Longrightarrow>
   0 < eduBadges (fst (filterVideo lower s x))"
  by (auto simp: filterVideo_def Let_def markAsEducational_def)

lemma fst_onNavigate:
  "fst (onNavigate st) =
     setElements (map (\<lambda>el. el\<lparr>focusProcessed := None\<rparr>) (elements (doc st))) st"
  unfolding onNavigate_def Let_def strip_processed_eq by simp

text \<open>
  C5, amended. \<open>onNavigate\<close> strips the marker of every element, changes nothing else, and
  schedules a scan exactly when focus mode is on. With focus mode on and both keyword lists
  present, that scan returns, and every content card, marked before the navigation or not,
  comes out marked and as its text is classified now: hidden when blocked, badged when
  educational and it has a thumbnail. A handler strips the marker of an element only if it
  is the navigation handler, or a settings update that turns focus mode off, or another
  handler running while focus mode is off.
\<close>

theorem navigation_resets_markers:
  "fst (onNavigate st) =
     setElements (map (\<lambda>el. el\<lparr>focusProcessed := None\<rparr>) (elements (doc st))) st \<and>
   snd (onNavigate st) = focusModeEnabled (settings st) \<and>
   (focusModeEnabled (settings st) \<and> allowedKeywords (settings st) \<noteq> None \<and>
    blockedKeywords (settings st) \<noteq> None \<longrightarrow>
      (\<exists>st'. scanAndCheck lower (fst (onNavigate st)) = Returned st' \<and>
         length (elements (doc st')) = length (elements (doc st)) \<and>
         (\<forall>i < length (elements (doc st)).
            matchesVideoRenderer (elements (doc st) ! i) \<longrightarrow>
              focusProcessed (elements (doc st') ! i) = Some (str ''true'') \<and>
              (\<forall>t. videoTitle (elements (doc st) ! i) = Some t \<and>
                 classifyContent lower (settings st)
                   (lower t @ str '' '' @
                    (case channelName (elements (doc st) ! i) of
                       Some c \<Rightarrow> lower c | None \<Rightarrow> [])) = Inr Blocked \<longrightarrow>
                 focusHidden (elements (doc st') ! i)) \<and>
              (\<forall>t. videoTitle (elements (doc st) ! i) = Some t \<and>
                 thumbnail (elements (doc st) ! i) \<noteq> None \<and>
                 classifyContent lower (settings st)
                   (lower t @ str '' '' @
                    (case channelName (elements (doc st) ! i) of
                       Some c \<Rightarrow> lower c | None \<Rightarrow> [])) = Inr Educational \<longrightarrow>
                 0 < eduBadges (elements (doc st') ! i))))) \<and>
   (j < length (elements (doc st)) \<and> focusProcessed (elements (doc st) ! j) \<noteq> None \<and>
    focusProcessed (elements (doc (stateOf (handleEvent lower ev st))) ! j) = None \<longrightarrow>
      ev = NavigateFinish \<or>
      (\<exists>s. ev = RuntimeMessage (SETTINGS_UPDATED s) \<and> \<not> focusModeEnabled s) \<or>
      ((\<forall>s. ev \<noteq> RuntimeMessage (SETTINGS_UPDATED s)) \<and> \<not> focusModeEnabled (settings st)))"
proof (intro conjI)
  show "fst (onNavigate st) =
     setElements (map (\<lambda>el. el\<lparr>focusProcessed := None\<rparr>) (elements (doc st))) st"
    by (rule fst_onNavigate)
  show "snd (onNavigate st) = focusModeEnabled (settings st)"
    by (simp add: onNavigate_def Let_def)
  show "focusModeEnabled (settings st) \<and> allowedKeywords (settings st) \<noteq> None \<and>
    blockedKeywords (settings st) \<noteq> None \<longrightarrow>
      (\<exists>st'. scanAndCheck lower (fst (onNavigate st)) = Returned st' \<and>
         length (elements (doc st')) = length (elements (doc st)) \<and>
         (\<forall>i < length (elements (doc st)).
            matchesVideoRenderer (elements (doc st) ! i) \<longrightarrow>
              focusProcessed (elements (doc st') ! i) = Some (str ''true'') \<and>
              (\<forall>t. videoTitle (elements (doc st) ! i) = Some t \<and>
                 classifyContent lower (settings st)
                   (lower t @ str '' '' @
                    (case channelName (elements (doc st) ! i) of
                       Some c \<Rightarrow> lower c | None \<Rightarrow> [])) = Inr Blocked \<longrightarrow>
                 focusHidden (elements (doc st') ! i)) \<and>
              (\<forall>t. videoTitle (elements (doc st) ! i) = Some t \<and>
                 thumbnail (elements (doc st) ! i) \<noteq> None \<and>
                 classifyContent lower (settings st)
                   (lower t @ str '' '' @
                    (case channelName (elements (doc st) ! i) of
                       Some c \<Rightarrow> lower c | None \<Rightarrow> [])) = Inr Educational \<longrightarrow>
                 0 < eduBadges (elements (doc st') ! i))))"
  proof
    assume h: "focusModeEnabled (settings st) \<and> allowedKeywords (settings st) \<noteq> None \<and>
      blockedKeywords (settings st) \<noteq> None"
    let ?s = "settings st"
    let ?nav = "fst (onNavigate st)"
    let ?clear = "\<lambda>el. el\<lparr>focusProcessed := None\<rparr>"
    have sn: "settings ?nav = ?s" and en: "elements (doc ?nav) = map ?clear (elements (doc st))"
      by (simp_all add: fst_onNavigate setElements_def)
    obtain st' where r: "scanAndCheck lower ?nav = Returned st'"
      and d: "doc st' = scannedDoc lower ?s (doc ?nav)"
      using scanAndCheck_present[of ?nav lower] h sn by auto
    have len: "length (elements (doc st')) = length (elements (doc st))"
      by (simp add: d length_scannedDoc en)
    have card: "focusProcessed (elements (doc st') ! i) = Some (str ''true'') \<and>
        (\<forall>t. videoTitle (elements (doc st) ! i) = Some t \<and>
           classifyContent lower ?s
             (lower t @ str '' '' @
              (case channelName (elements (doc st) ! i) of
                 Some c \<Rightarrow> lower c | None \<Rightarrow> [])) = Inr Blocked \<longrightarrow>
           focusHidden (elements (doc st') ! i)) \<and>
        (\<forall>t. videoTitle (elements (doc st) ! i) = Some t \<and>
           thumbnail (elements (doc st) ! i) \<noteq> None \<and>
           classifyContent lower ?s
             (lower t @ str '' '' @
              (case channelName (elements (doc st) ! i) of
                 Some c \<Rightarrow> lower c | None \<Rightarrow> [])) = Inr Educational \<longrightarrow>
           0 < eduBadges (elements (doc st') ! i))"
      if i: "i < length (elements (doc st))" and v: "matchesVideoRenderer (elements (doc st) ! i)"
      for i
    proof -
      let ?el = "elements (doc st) ! i"
      let ?x = "?clear ?el"
      let ?y = "fst (filterVideo lower ?s ?x)"
      let ?e' = "elements (doc st') ! i"
      have xi: "elements (doc ?nav) ! i = ?x" using i by (simp add: en)
      have "scanElement lower ?s ?x = ?y \<or> scanElement lower ?s ?x = addFocusHidden ?y"
        using v by (simp add: scanElement_alt)
      moreover have "?e' = scanElement lower ?s ?x \<or> ?e' = addFocusHidden (scanElement lower ?s ?x)"
        using scannedDoc_nth[of i "doc ?nav" lower ?s] i xi by (simp add: d en)
      ultimately have e': "?e' = ?y \<or> ?e' = addFocusHidden ?y"
        by (auto simp: matches_addFocusHidden)
      have p: "focusProcessed ?y = Some (str ''true'')" by (rule filterVideo_marks)
      have b: "focusHidden ?y"
        if "videoTitle ?el = Some t" and "classifyContent lower ?s
             (lower t @ str '' '' @
              (case channelName ?el of Some c \<Rightarrow> lower c | None \<Rightarrow> [])) = Inr Blocked" for t
        using that filterVideo_fresh_blocked[of ?x t lower ?s] by simp
      have e: "0 < eduBadges ?y"
        if "videoTitle ?el = Some t" and "thumbnail ?el \<noteq> None" and "classifyContent lower ?s
             (lower t @ str '' '' @
              (case channelName ?el of Some c \<Rightarrow> lower c | None \<Rightarrow> [])) = Inr Educational" for t
        using that filterVideo_fresh_educational[of ?x t lower ?s] by simp
      from e' p b e show ?thesis
        by (auto simp: addFocusHidden_def)
    qed
    from r len card show "\<exists>st'. scanAndCheck lower ?nav = Returned st' \<and>
         length (elements (doc st')) = length (elements (doc st)) \<and>
         (\<forall>i < length (elements (doc st)).
            matchesVideoRenderer (elements (doc st) ! i) \<longrightarrow>
              focusProcessed (elements (doc st') ! i) = Some (str ''true'') \<and>
              (\<forall>t. videoTitle (elements (doc st) ! i) = Some t \<and>
                 classifyContent lower ?s
                   (lower t @ str '' '' @
                    (case channelName (elements (doc st) ! i) of
                       Some c \<Rightarrow> lower c | None \<Rightarrow> [])) = Inr Blocked \<longrightarrow>
                 focusHidden (elements (doc st') ! i)) \<and>
              (\<forall>t. videoTitle (elements (doc st) ! i) = Some t \<and>
                 thumbnail (elements (doc st) ! i) \<noteq> None \<and>
                 classifyContent lower ?s
                   (lower t @ str '' '' @
                    (case channelName (elements (doc st) ! i) of
                       Some c \<Rightarrow> lower c | None \<Rightarrow> [])) = Inr Educational \<longrightarrow>
                 0 < eduBadges (elements (doc st') ! i)))"
      by blast
  qed
  show "j < length (elements (doc st)) \<and> focusProcessed (elements (doc st) ! j) \<noteq> None \<and>
    focusProcessed (elements (doc (stateOf (handleEvent lower ev st))) ! j) = None \<longrightarrow>
      ev = NavigateFinish \<or>
      (\<exists>s. ev = RuntimeMessage (SETTINGS_UPDATED s) \<and> \<not> focusModeEnabled s) \<or>
      ((\<forall>s. ev \<noteq> RuntimeMessage (SETTINGS_UPDATED s)) \<and> \<not> focusModeEnabled (settings st))"
  proof (rule impI, rule ccontr)
    assume a: "j < length (elements (doc st)) \<and> focusProcessed (elements (doc st) ! j) \<noteq> None \<and>
      focusProcessed (elements (doc (stateOf (handleEvent lower ev st))) ! j) = None"
    assume n: "\<not> (ev = NavigateFinish \<or>
      (\<exists>s. ev = RuntimeMessage (SETTINGS_UPDATED s) \<and> \<not> focusModeEnabled s) \<or>
      ((\<forall>s. ev \<noteq> RuntimeMessage (SETTINGS_UPDATED s)) \<and> \<not> focusModeEnabled (settings st)))"
    then have "list_all2 grows (elements (doc st)) (elements (doc (stateOf (handleEvent lower ev st))))"
      by (intro enabled_handler_keeps_markers) auto
    with a have "grows (elements (doc st) ! j) (elements (doc (stateOf (handleEvent lower ev st))) ! j)"
      by (simp add: list_all2_nthD)
    with a show False by (simp add: grows_def)
  qed
qed

theorem navigation_resets_markers_witness:
  "focusProcessed (elements (doc markedState) ! 0) = Some (str ''true'') \<and>
   snd (onNavigate markedState) \<and>
   (\<exists>st'. scanAndCheck asciiLowerCase (fst (onNavigate markedState)) = Returned st' \<and>
      focusProcessed (elements (doc st') ! 0) = Some (str ''true'') \<and>
      focusHidden (elements (doc st') ! 0) \<and>
      0 < eduBadges (elements (doc st') ! 1)) \<and>
   (\<exists>s. disableMessage = RuntimeMessage (SETTINGS_UPDATED s) \<and> \<not> focusModeEnabled s)"
proof -
  let ?es = "elements (doc markedState)"
  have hyp: "focusModeEnabled (settings markedState) \<and>
      allowedKeywords (settings markedState) \<noteq> None \<and>
      blockedKeywords (settings markedState) \<noteq> None"
    by (simp add: markedState_def setElements_def sampleState_def sampleSettings_def)
  have m0: "focusProcessed (?es ! 0) = Some (str ''true'')" by code_simp
  have i0: "0 < length ?es" "matchesVideoRenderer (?es ! 0)"
    "videoTitle (?es ! 0) = Some (str ''Python Prank Compilation'') \<and>
     classifyContent asciiLowerCase (settings markedState)
       (asciiLowerCase (str ''Python Prank Compilation'') @ str '' '' @
        (case channelName (?es ! 0) of Some c \<Rightarrow> asciiLowerCase c | None \<Rightarrow> [])) = Inr Blocked"
    by code_simp+
  have i1: "1 < length ?es" "matchesVideoRenderer (?es ! 1)"
    "videoTitle (?es ! 1) = Some (str ''Intro to Python Tutorial'') \<and>
     thumbnail (?es ! 1) \<noteq> None \<and>
     classifyContent asciiLowerCase (settings markedState)
       (asciiLowerCase (str ''Intro to Python Tutorial'') @ str '' '' @
        (case channelName (?es ! 1) of Some c \<Rightarrow> asciiLowerCase c | None \<Rightarrow> [])) = Inr Educational"
    by code_simp+
  have strip: "0 < length ?es \<and> focusProcessed (?es ! 0) \<noteq> None \<and>
      focusProcessed (elements (doc (stateOf (handleEvent asciiLowerCase disableMessage markedState))) ! 0) = None"
    by code_simp
  note t = navigation_resets_markers [where lower = asciiLowerCase and st = markedState and ev = disableMessage and j = 0]
  from t have a: "snd (onNavigate markedState)" using hyp by simp
  from t [THEN conjunct2, THEN conjunct2, THEN conjunct1, THEN mp, OF hyp]
  obtain st' where r: "scanAndCheck asciiLowerCase (fst (onNavigate markedState)) = Returned st'"
    and c: "\<forall>i < length ?es.
            matchesVideoRenderer (?es ! i) \<longrightarrow>
              focusProcessed (elements (doc st') ! i) = Some (str ''true'') \<and>
              (\<forall>t. videoTitle (?es ! i) = Some t \<and>
                 classifyContent asciiLowerCase (settings markedState)
                   (asciiLowerCase t @ str '' '' @
                    (case channelName (?es ! i) of
                       Some c \<Rightarrow> asciiLowerCase c | None \<Rightarrow> [])) = Inr Blocked \<longrightarrow>
                 focusHidden (elements (doc st') ! i)) \<and>
              (\<forall>t. videoTitle (?es ! i) = Some t \<and>
                 thumbnail (?es ! i) \<noteq> None \<and>
                 classifyContent asciiLowerCase (settings markedState)
                   (asciiLowerCase t @ str '' '' @
                    (case channelName (?es ! i) of
                       Some c \<Rightarrow> asciiLowerCase c | None \<Rightarrow> [])) = Inr Educational \<longrightarrow>
                 0 < eduBadges (elements (doc st') ! i))"
    by blast
  from c i0 have b0: "focusProcessed (elements (doc st') ! 0) = Some (str ''true'')"
    and b1: "focusHidden (elements (doc st') ! 0)"
    by blast+
  from c i1 have b2: "0 < eduBadges (elements (doc st') ! 1)"
    by blast
  from t [THEN conjunct2, THEN conjunct2, THEN conjunct2, THEN mp, OF strip]
  have d: "\<exists>s. disableMessage = RuntimeMessage (SETTINGS_UPDATED s) \<and> \<not> focusModeEnabled s"
    by (auto simp: disableMessage_def disableUpdate_def)
  from m0 a r b0 b1 b2 d show ?thesis by blast
qed


end
